theory Spec2Isabelle
  imports Main
begin

section \<open>Configuration and shape catalog\<close>

text \<open>
  The rules engine of \<^verbatim>\<open>tetris_enhanced.py\<close>. Python integers are \<open>int\<close>, kind tags
  are strings as in the source (\<^verbatim>\<open>kind: str\<close>), a board cell is \<open>string option\<close>
  (\<^verbatim>\<open>None\<close> is the empty cell) and every exception the engine code can raise is a
  value of \<open>py_error\<close>.
\<close>

datatype py_error = KeyError | IndexError | ZeroDivisionError | OverflowError

definition PLAY_COLS :: int where
  "PLAY_COLS = 10"

definition PLAY_ROWS :: int where
  "PLAY_ROWS = 20"

type_synonym shape = "string list"

definition SHAPES :: "(string \<times> shape list) list" where
  "SHAPES =
    [(''I'', [[''....'', ''IIII'', ''....'', ''....'']]),
     (''O'', [[''....'', ''.OO.'', ''.OO.'', ''....'']]),
     (''T'', [[''....'', ''.TTT'', ''..T.'', ''....'']]),
     (''S'', [[''....'', ''..SS'', ''.SS.'', ''....'']]),
     (''Z'', [[''....'', ''.ZZ.'', ''..ZZ'', ''....'']]),
     (''J'', [[''....'', ''.JJJ'', ''.J..'', ''....'']]),
     (''L'', [[''....'', ''.LLL'', ''.L..'', ''....'']])]"

definition ROTATIONS :: "(string \<times> nat) list" where
  "ROTATIONS =
    [(''I'', 2), (''O'', 1), (''T'', 4), (''S'', 2), (''Z'', 2), (''J'', 4), (''L'', 4)]"

type_synonym kick_table = "((int \<times> int) \<times> (int \<times> int) list) list"

definition KICKS_JLTSZ :: kick_table where
  "KICKS_JLTSZ =
    [((0, 1), [(0, 0), (-1, 0), (-1, -1), (0, 2), (-1, 2)]),
     ((1, 0), [(0, 0), (1, 0), (1, 1), (0, -2), (1, -2)]),
     ((1, 2), [(0, 0), (1, 0), (1, -1), (0, 2), (1, 2)]),
     ((2, 1), [(0, 0), (-1, 0), (-1, 1), (0, -2), (-1, -2)]),
     ((2, 3), [(0, 0), (1, 0), (1, 1), (0, -2), (1, -2)]),
     ((3, 2), [(0, 0), (-1, 0), (-1, -1), (0, 2), (-1, 2)]),
     ((3, 0), [(0, 0), (-1, 0), (-1, 1), (0, -2), (-1, -2)]),
     ((0, 3), [(0, 0), (1, 0), (1, -1), (0, 2), (1, 2)])]"

definition KICKS_I :: kick_table where
  "KICKS_I =
    [((0, 1), [(0, 0), (-2, 0), (1, 0), (-2, -1), (1, 2)]),
     ((1, 0), [(0, 0), (2, 0), (-1, 0), (2, 1), (-1, -2)]),
     ((1, 2), [(0, 0), (-1, 0), (2, 0), (-1, 2), (2, -1)]),
     ((2, 1), [(0, 0), (1, 0), (-2, 0), (1, -2), (-2, 1)]),
     ((2, 3), [(0, 0), (2, 0), (-1, 0), (2, 1), (-1, -2)]),
     ((3, 2), [(0, 0), (-2, 0), (1, 0), (-2, -1), (1, 2)]),
     ((3, 0), [(0, 0), (1, 0), (-2, 0), (1, -2), (-2, 1)]),
     ((0, 3), [(0, 0), (-1, 0), (2, 0), (-1, 2), (2, -1)])]"

definition KICKS :: "(string \<times> kick_table) list" where
  "KICKS = [(''JLTSZ'', KICKS_JLTSZ), (''I'', KICKS_I)]"

text \<open>
  \<^verbatim>\<open>rotate_shape\<close>: row \<open>r\<close>, column \<open>c\<close> of the result is row \<open>3 - c\<close>, column \<open>r\<close> of
  the argument. It is only ever applied to the 4x4 matrices of \<open>SHAPES\<close>.
\<close>

definition rotate_shape :: "shape \<Rightarrow> shape" where
  "rotate_shape g = map (\<lambda>r. map (\<lambda>c. g ! (3 - c) ! r) [0..<4]) [0..<4]"

text \<open>The de-duplication pass of \<^verbatim>\<open>build_rotations\<close>: first occurrences are kept, in order.\<close>

fun unique_from :: "shape list \<Rightarrow> shape list \<Rightarrow> shape list" where
  "unique_from seen [] = []"
| "unique_from seen (g # gs) =
     (if g \<in> set seen then unique_from seen gs else g # unique_from (g # seen) gs)"

definition build_rotations :: "string \<Rightarrow> py_error + shape list" where
  "build_rotations k =
     (case map_of SHAPES k of
        None \<Rightarrow> Inl KeyError
      | Some [] \<Rightarrow> Inl IndexError
      | Some (base # _) \<Rightarrow>
          (let r1 = rotate_shape base; r2 = rotate_shape r1; r3 = rotate_shape r2;
               unique = unique_from [] [base, r1, r2, r3]
           in case map_of ROTATIONS k of
                None \<Rightarrow> Inl KeyError
              | Some count \<Rightarrow> Inr (take count unique)))"

text \<open>
  \<^verbatim>\<open>ROTATED = {k: build_rotations(k) for k in SHAPES.keys()}\<close>, as an association list
  in the order of the keys. No call raises (lemma \<open>ROTATED_table\<close> below gives the table).
\<close>

definition ROTATED :: "(string \<times> shape list) list" where
  "ROTATED = concat (map (\<lambda>(k, _). case build_rotations k of Inr rs \<Rightarrow> [(k, rs)] | Inl _ \<Rightarrow> []) SHAPES)"


section \<open>Python floats\<close>

text \<open>
  The engine uses floats in two places that matter to its integers and its exceptions:
  \<^verbatim>\<open>int(pts * 1.5)\<close> in \<^verbatim>\<open>score_lines\<close> and \<^verbatim>\<open>0.9 ** (level - 1)\<close> in
  \<^verbatim>\<open>gravity_for_level\<close>. A float is an IEEE double: 53 significant bits, rounding to
  nearest with ties to even, finite below \<open>2 ^ 1024\<close>. The float of an integer has an
  integer value, so these computations are modelled on integers.

  \<open>bit_length\<close> is Python's \<^verbatim>\<open>int.bit_length\<close>; \<open>round53 n\<close> is \<open>n\<close> rounded to 53
  significant bits.
\<close>

fun bit_length :: "nat \<Rightarrow> nat" where
  "bit_length n = (if n = 0 then 0 else Suc (bit_length (n div 2)))"

declare bit_length.simps [simp del]

definition round53 :: "nat \<Rightarrow> nat" where
  "round53 n =
     (if bit_length n \<le> 53 then n
      else (let sh = bit_length n - 53;
                q = n div 2 ^ sh;
                r = n mod 2 ^ sh;
                half = 2 ^ (sh - 1);
                q1 = (if r > half \<or> (r = half \<and> odd q) then q + 1 else q)
            in q1 * 2 ^ sh))"

text \<open>
  The conversion of an \<^verbatim>\<open>int\<close> to a float, as the value of the float: it raises
  \<^verbatim>\<open>OverflowError\<close> (``int too large to convert to float'') when the rounded value is
  not finite.
\<close>

definition py_float_of_int :: "int \<Rightarrow> py_error + int" where
  "py_float_of_int n =
     (let m = int (round53 (nat \<bar>n\<bar>))
      in if 2 ^ 1024 \<le> m then Inl OverflowError else Inr (sgn n * m))"

text \<open>
  \<^verbatim>\<open>int(pts * 1.5)\<close>: \<^verbatim>\<open>pts\<close> is converted to a float \<open>f\<close>; the product \<open>3 * f / 2\<close> is
  rounded to 53 bits (\<open>twice\<close> is twice the rounded product: rounding commutes with
  halving); an infinite product makes \<^verbatim>\<open>int\<close> raise \<^verbatim>\<open>OverflowError\<close>; a finite one is
  truncated toward zero.
\<close>

definition int_times_1_5 :: "int \<Rightarrow> py_error + int" where
  "int_times_1_5 pts =
     (case py_float_of_int pts of
        Inl e \<Rightarrow> Inl e
      | Inr f \<Rightarrow>
          (let twice = int (round53 (nat (3 * \<bar>f\<bar>)))
           in if 2 ^ 1025 \<le> twice then Inl OverflowError
              else Inr (sgn f * (twice div 2))))"

section \<open>Pieces and the game state\<close>

text \<open>
  The dataclass \<^verbatim>\<open>Piece(kind, x, y, r)\<close>. The selectors are \<open>px\<close>, \<open>py\<close>, \<open>pr\<close> for the
  fields \<^verbatim>\<open>x\<close>, \<^verbatim>\<open>y\<close>, \<^verbatim>\<open>r\<close>.
\<close>

datatype Piece = Piece (kind: string) (px: int) (py: int) (pr: int)

text \<open>
  The float \<^verbatim>\<open>fall_interval\<close> is kept as the expression that produced it: the dataclass
  default \<^verbatim>\<open>1.0\<close> or \<^verbatim>\<open>gravity_for_level(level)\<close>
  \<^verbatim>\<open>= max(0.05, 0.8 * (0.9 ** (level - 1)))\<close>. Its numeric value is read by the frame
  timer only. What the engine observes of the computation is its exception:
  \<^verbatim>\<open>0.9 ** (level - 1)\<close> converts the exponent to a float and raises \<^verbatim>\<open>OverflowError\<close>
  when that conversion overflows or when the power is not finite, which is the case for
  exponents \<open>\<le> -6737\<close> (\<open>0.9 ^ (-6736)\<close> is about \<open>1.67e308\<close>, below the largest double
  \<open>1.80e308\<close>, and \<open>0.9 ^ (-6737)\<close> is about \<open>1.85e308\<close>); a power that underflows is
  \<open>0.0\<close> without an exception.
\<close>

datatype py_float = Default_1_0 | Gravity int

definition gravity_overflows :: "int \<Rightarrow> bool" where
  "gravity_overflows lv =
     (case py_float_of_int (lv - 1) of Inl e \<Rightarrow> True | Inr w \<Rightarrow> w \<le> - 6737)"

definition gravity_for_level :: "int \<Rightarrow> py_error + py_float" where
  "gravity_for_level lv = (if gravity_overflows lv then Inl OverflowError else Inr (Gravity lv))"

text \<open>
  The dataclass \<^verbatim>\<open>GameState\<close>. The float fields \<^verbatim>\<open>hard_drop_duration\<close> and
  \<^verbatim>\<open>hard_drop_start_time\<close> belong to the animation clock and are left out; whether the
  animation has finished is an input of the frame step below.
\<close>

record GameState =
  grid :: "string option list list"
  bag :: "string list"
  next_queue :: "string list"
  hold :: "string option"
  can_hold :: bool
  current :: "Piece option"
  score :: int
  lines :: int
  level :: int
  combo :: int
  back_to_back :: bool
  game_over :: bool
  paused :: bool
  fall_interval :: py_float
  hard_drop_anim :: bool
  hard_drop_start_y :: int
  hard_drop_target_y :: int

text \<open>\<^verbatim>\<open>GameState()\<close>: the dataclass defaults, an empty board of 20 rows of 10 cells.\<close>

definition GameState_default :: GameState where
  "GameState_default =
     \<lparr>grid = replicate (nat PLAY_ROWS) (replicate (nat PLAY_COLS) None),
      bag = [], next_queue = [], hold = None, can_hold = True, current = None,
      score = 0, lines = 0, level = 1, combo = -1, back_to_back = False,
      game_over = False, paused = False, fall_interval = Default_1_0,
      hard_drop_anim = False, hard_drop_start_y = 0, hard_drop_target_y = 0\<rparr>"

subsection \<open>Python list indexing\<close>

text \<open>
  \<^verbatim>\<open>xs[i]\<close>: a negative index counts from the end, anything outside
  \<open>-len \<le> i < len\<close> raises \<^verbatim>\<open>IndexError\<close>.
\<close>

definition py_index :: "'a list \<Rightarrow> int \<Rightarrow> nat option" where
  "py_index xs i =
     (if 0 \<le> i \<and> i < int (length xs) then Some (nat i)
      else if i < 0 \<and> - int (length xs) \<le> i then Some (nat (int (length xs) + i))
      else None)"

definition py_getitem :: "'a list \<Rightarrow> int \<Rightarrow> py_error + 'a" where
  "py_getitem xs i = (case py_index xs i of None \<Rightarrow> Inl IndexError | Some k \<Rightarrow> Inr (xs ! k))"

definition py_setitem :: "'a list \<Rightarrow> int \<Rightarrow> 'a \<Rightarrow> py_error + 'a list" where
  "py_setitem xs i v = (case py_index xs i of None \<Rightarrow> Inl IndexError | Some k \<Rightarrow> Inr (xs[k := v]))"

text \<open>\<^verbatim>\<open>g[y][x]\<close> and \<^verbatim>\<open>g[y][x] = v\<close> on the list of rows.\<close>

definition grid_get :: "'a list list \<Rightarrow> int \<Rightarrow> int \<Rightarrow> py_error + 'a" where
  "grid_get g row col =
     (case py_getitem g row of Inl e \<Rightarrow> Inl e | Inr cells_of_row \<Rightarrow> py_getitem cells_of_row col)"

definition grid_set :: "'a list list \<Rightarrow> int \<Rightarrow> int \<Rightarrow> 'a \<Rightarrow> py_error + 'a list list" where
  "grid_set g row col v =
     (case py_index g row of
        None \<Rightarrow> Inl IndexError
      | Some j \<Rightarrow>
          (case py_setitem (g ! j) col v of
             Inl e \<Rightarrow> Inl e
           | Inr new_row \<Rightarrow> Inr (g[j := new_row])))"

subsection \<open>Piece geometry\<close>

text \<open>
  The property \<^verbatim>\<open>Piece.grid\<close>: \<^verbatim>\<open>ROTATED[self.kind][self.r % len(ROTATED[self.kind])]\<close>.
  An unknown kind raises \<^verbatim>\<open>KeyError\<close>. Python's \<^verbatim>\<open>%\<close> with a positive divisor is
  non-negative, as \<open>mod\<close> on \<open>int\<close> is.
\<close>

definition piece_grid :: "Piece \<Rightarrow> py_error + shape" where
  "piece_grid p =
     (case map_of ROTATED (kind p) of
        None \<Rightarrow> Inl KeyError
      | Some rots \<Rightarrow>
          (if rots = [] then Inl ZeroDivisionError
           else py_getitem rots (pr p mod int (length rots))))"

text \<open>
  \<^verbatim>\<open>Piece.cells\<close>: the occupied cells as (column, row), rows \<open>j\<close> outermost and columns
  \<open>i\<close> innermost, both ascending.
\<close>

definition shape_cells :: "shape \<Rightarrow> int \<Rightarrow> int \<Rightarrow> (int \<times> int) list" where
  "shape_cells g x0 y0 =
     concat (map (\<lambda>j. concat (map (\<lambda>i. if g ! j ! i \<noteq> CHR ''.'' then [(x0 + int i, y0 + int j)] else [])
                                    [0..<4]))
                 [0..<4])"

definition cells :: "Piece \<Rightarrow> py_error + (int \<times> int) list" where
  "cells p = (case piece_grid p of Inl e \<Rightarrow> Inl e | Inr g \<Rightarrow> Inr (shape_cells g (px p) (py p)))"

definition spawn_x :: "string \<Rightarrow> int" where
  "spawn_x k = (if k \<noteq> ''I'' then 3 else 3)"

section \<open>Core game logic\<close>

text \<open>
  \<^verbatim>\<open>collides\<close>: the loop over the cells returns \<^verbatim>\<open>True\<close> at the first cell that is out of
  the horizontal bounds, at or below the bottom, or on a locked cell of a row \<open>\<ge> 0\<close>.
\<close>

fun collides_cells :: "string option list list \<Rightarrow> (int \<times> int) list \<Rightarrow> py_error + bool" where
  "collides_cells g [] = Inr False"
| "collides_cells g ((cx, cy) # rest) =
     (if cx < 0 \<or> cx \<ge> PLAY_COLS \<or> cy \<ge> PLAY_ROWS then Inr True
      else if cy \<ge> 0 then
        (case grid_get g cy cx of
           Inl e \<Rightarrow> Inl e
         | Inr c \<Rightarrow> if c \<noteq> None then Inr True else collides_cells g rest)
      else collides_cells g rest)"

definition collides :: "GameState \<Rightarrow> Piece \<Rightarrow> py_error + bool" where
  "collides state piece =
     (case cells piece of Inl e \<Rightarrow> Inl e | Inr cs \<Rightarrow> collides_cells (grid state) cs)"

text \<open>
  \<^verbatim>\<open>clear_lines\<close>: keep the rows with an empty cell, count the others against
  \<^verbatim>\<open>PLAY_ROWS\<close>, and put empty rows on top until there are \<^verbatim>\<open>PLAY_ROWS\<close> rows.
\<close>

definition clear_lines :: "GameState \<Rightarrow> GameState \<times> int" where
  "clear_lines state =
     (let new_grid = filter (\<lambda>row. \<exists>c \<in> set row. c = None) (grid state);
          cleared = PLAY_ROWS - int (length new_grid);
          padded = replicate (nat PLAY_ROWS - length new_grid) (replicate (nat PLAY_COLS) None) @ new_grid
      in (state\<lparr>grid := padded\<rparr>, cleared))"

text \<open>
  \<^verbatim>\<open>is_t_spin\<close>: the four cells \<open>(x, y)\<close>, \<open>(x + 2, y)\<close>, \<open>(x, y + 2)\<close>, \<open>(x + 2, y + 2)\<close>;
  one counts when it is out of bounds or holds a locked cell.
\<close>

definition corner_occupied :: "string option list list \<Rightarrow> int \<times> int \<Rightarrow> py_error + bool" where
  "corner_occupied g c =
     (case c of (cx, cy) \<Rightarrow>
        if cy < 0 \<or> cx < 0 \<or> cx \<ge> PLAY_COLS \<or> cy \<ge> PLAY_ROWS then Inr True
        else (case grid_get g cy cx of Inl e \<Rightarrow> Inl e | Inr v \<Rightarrow> Inr (v \<noteq> None)))"

fun count_occupied :: "string option list list \<Rightarrow> (int \<times> int) list \<Rightarrow> nat \<Rightarrow> py_error + nat" where
  "count_occupied g [] occupied = Inr occupied"
| "count_occupied g (c # cs) occupied =
     (case corner_occupied g c of
        Inl e \<Rightarrow> Inl e
      | Inr b \<Rightarrow> count_occupied g cs (if b then occupied + 1 else occupied))"

definition corners :: "Piece \<Rightarrow> (int \<times> int) list" where
  "corners piece =
     [(px piece, py piece), (px piece + 2, py piece),
      (px piece, py piece + 2), (px piece + 2, py piece + 2)]"

definition is_t_spin :: "GameState \<Rightarrow> Piece \<Rightarrow> bool \<Rightarrow> py_error + string" where
  "is_t_spin state piece kicked =
     (if kind piece \<noteq> ''T'' then Inr ''none''
      else (case count_occupied (grid state) (corners piece) 0 of
              Inl e \<Rightarrow> Inl e
            | Inr occupied \<Rightarrow> if occupied \<ge> 3 then Inr ''tspin'' else Inr ''none''))"

text \<open>
  \<^verbatim>\<open>score_lines\<close>. The two float computations can raise; they come in the order of the
  source: the multiplication after the combo bonus, the new fall interval after the
  level is raised, both before the score is updated.
\<close>

definition score_lines :: "GameState \<Rightarrow> int \<Rightarrow> string \<Rightarrow> py_error + GameState" where
  "score_lines state n tspin =
     (let pts0 =
            (if tspin \<noteq> ''none'' then (if n = 1 then 400 else if n = 2 then 700 else 100)
             else (if n = 1 then 100 else if n = 2 then 300 else if n = 3 then 500
                   else if n \<ge> 4 then 800 else 0));
          b2b_candidate = (if tspin \<noteq> ''none'' then True else n \<ge> 4)
      in if n > 0 then
           (let combo1 = combo state + 1;
                pts1 = (if combo1 > 0 then pts0 + 50 * combo1 else pts0)
            in case (if b2b_candidate \<and> back_to_back state then int_times_1_5 pts1 else Inr pts1) of
                 Inl e \<Rightarrow> Inl e
               | Inr pts2 \<Rightarrow>
                   (let lines1 = lines state + n;
                        s1 = state\<lparr>combo := combo1, back_to_back := b2b_candidate, lines := lines1\<rparr>
                    in if lines1 div 10 + 1 > level state then
                         (case gravity_for_level (lines1 div 10 + 1) of
                            Inl e \<Rightarrow> Inl e
                          | Inr g \<Rightarrow>
                              Inr (s1\<lparr>level := lines1 div 10 + 1, fall_interval := g,
                                      score := score state + pts2\<rparr>))
                       else Inr (s1\<lparr>score := score state + pts2\<rparr>)))
         else Inr (state\<lparr>combo := -1, back_to_back := False, score := score state + pts0\<rparr>))"

subsection \<open>The bag\<close>

text \<open>
  The module-level random generator is an explicit argument: an infinite sequence of raw
  draws, of which \<^verbatim>\<open>randbelow(n)\<close> takes the first and reduces it below \<open>n\<close>.
  \<^verbatim>\<open>random.shuffle\<close> is the library's exchange loop
  \<^verbatim>\<open>for i in reversed(range(1, len(x))): j = randbelow(i + 1); x[i], x[j] = x[j], x[i]\<close>.
\<close>

type_synonym rng = "nat \<Rightarrow> nat"

definition skip_draws :: "nat \<Rightarrow> rng \<Rightarrow> rng" where
  "skip_draws n rnd = (\<lambda>k. rnd (k + n))"

primrec shuffle_down :: "nat \<Rightarrow> rng \<Rightarrow> 'a list \<Rightarrow> 'a list" where
  "shuffle_down 0 rnd xs = xs"
| "shuffle_down (Suc m) rnd xs =
     (let i = Suc m; j = rnd 0 mod (i + 1)
      in shuffle_down m (skip_draws 1 rnd) (xs[i := xs ! j, j := xs ! i]))"

definition shuffle :: "rng \<Rightarrow> 'a list \<Rightarrow> 'a list" where
  "shuffle rnd xs = shuffle_down (length xs - 1) rnd xs"

definition refill_bag :: "rng \<Rightarrow> GameState \<Rightarrow> rng \<times> GameState" where
  "refill_bag rnd state =
     (let keys = map fst SHAPES
      in (skip_draws (length keys - 1) rnd, state\<lparr>bag := bag state @ shuffle rnd keys\<rparr>))"

text \<open>
  The loop of \<^verbatim>\<open>spawn_next\<close> that tops the queue up to five kinds;
  \<^verbatim>\<open>state.bag.pop(0)\<close> raises \<^verbatim>\<open>IndexError\<close> on an empty bag.
\<close>

function fill_queue :: "rng \<Rightarrow> GameState \<Rightarrow> py_error + (rng \<times> GameState)" where
  "fill_queue rnd state =
     (if length (next_queue state) < 5 then
        (case (if bag state = [] then refill_bag rnd state else (rnd, state)) of
           (rnd1, s1) \<Rightarrow>
             (case bag s1 of
                [] \<Rightarrow> Inl IndexError
              | k # rest \<Rightarrow> fill_queue rnd1 (s1\<lparr>bag := rest, next_queue := next_queue s1 @ [k]\<rparr>)))
      else Inr (rnd, state))"
  by pat_completeness auto
termination
  by (relation "measure (\<lambda>(rnd, state). 5 - length (next_queue state))")
     (auto simp: refill_bag_def Let_def split: if_splits)

definition spawn_next :: "rng \<Rightarrow> GameState \<Rightarrow> py_error + (rng \<times> GameState)" where
  "spawn_next rnd state =
     (case fill_queue rnd state of
        Inl e \<Rightarrow> Inl e
      | Inr (rnd1, s1) \<Rightarrow>
          (case next_queue s1 of
             [] \<Rightarrow> Inl IndexError
           | k # rest \<Rightarrow>
               (let s2 = s1\<lparr>next_queue := rest\<rparr>;
                    piece = Piece k (spawn_x k) (-2) 0
                in case collides s2 piece of
                     Inl e \<Rightarrow> Inl e
                   | Inr hit \<Rightarrow>
                       Inr (rnd1, (if hit then s2\<lparr>game_over := True\<rparr> else s2)\<lparr>current := Some piece\<rparr>))))"

subsection \<open>Movement, rotation, drop, hold, lock\<close>

definition try_move :: "GameState \<Rightarrow> int \<Rightarrow> int \<Rightarrow> py_error + (GameState \<times> bool)" where
  "try_move state dx dy =
     (case current state of
        None \<Rightarrow> Inr (state, False)
      | Some cur \<Rightarrow>
          (let p = Piece (kind cur) (px cur + dx) (py cur + dy) (pr cur)
           in case collides state p of
                Inl e \<Rightarrow> Inl e
              | Inr hit \<Rightarrow> if \<not> hit then Inr (state\<lparr>current := Some p\<rparr>, True) else Inr (state, False)))"

text \<open>\<^verbatim>\<open>KICKS.get(which, {}).get((from_r, to_r), [(0, 0)])\<close>.\<close>

definition kicks_for :: "string \<Rightarrow> int \<Rightarrow> int \<Rightarrow> (int \<times> int) list" where
  "kicks_for which from_r to_r =
     (case map_of KICKS which of
        None \<Rightarrow> [(0, 0)]
      | Some table \<Rightarrow> (case map_of table (from_r, to_r) of None \<Rightarrow> [(0, 0)] | Some ks \<Rightarrow> ks))"

text \<open>The loop over the kick candidates of \<^verbatim>\<open>try_rotate\<close>: the first that fits is installed.\<close>

fun try_kicks ::
  "GameState \<Rightarrow> Piece \<Rightarrow> int \<Rightarrow> (int \<times> int) list \<Rightarrow> py_error + (GameState \<times> bool \<times> string)" where
  "try_kicks state cur to_r [] = Inr (state, False, ''none'')"
| "try_kicks state cur to_r ((dx, dy) # rest) =
     (let cand = Piece (kind cur) (px cur + dx) (py cur + dy) to_r
      in case collides state cand of
           Inl e \<Rightarrow> Inl e
         | Inr hit \<Rightarrow>
             if \<not> hit then
               (let s1 = state\<lparr>current := Some cand\<rparr>
                in case is_t_spin s1 cand (dx \<noteq> 0 \<or> dy \<noteq> 0) of
                     Inl e \<Rightarrow> Inl e
                   | Inr t \<Rightarrow> Inr (s1, True, t))
             else try_kicks state cur to_r rest)"

definition try_rotate :: "GameState \<Rightarrow> int \<Rightarrow> py_error + (GameState \<times> bool \<times> string)" where
  "try_rotate state dr =
     (case current state of
        None \<Rightarrow> Inr (state, False, ''none'')
      | Some cur \<Rightarrow>
          (case map_of ROTATED (kind cur) of
             None \<Rightarrow> Inl KeyError
           | Some rots \<Rightarrow>
               if rots = [] then Inl ZeroDivisionError
               else
                 (let from_r = pr cur mod int (length rots);
                      to_r = (pr cur + dr) mod int (length rots);
                      which = (if kind cur = ''I'' then ''I'' else ''JLTSZ'')
                  in try_kicks state cur to_r (kicks_for which from_r to_r))))"

text \<open>
  The loop of \<^verbatim>\<open>hard_drop_distance\<close>: \<^verbatim>\<open>dist\<close> grows until the piece one row further
  down collides.
\<close>

function hard_drop_loop :: "GameState \<Rightarrow> Piece \<Rightarrow> int \<Rightarrow> py_error + int" where
  "hard_drop_loop state p dist =
     (case collides state (Piece (kind p) (px p) (py p + dist + 1) (pr p)) of
        Inl e \<Rightarrow> Inl e
      | Inr hit \<Rightarrow> if hit then Inr dist else hard_drop_loop state p (dist + 1))"
  by pat_completeness auto

definition hard_drop_distance :: "GameState \<Rightarrow> py_error + int" where
  "hard_drop_distance state =
     (case current state of None \<Rightarrow> Inr 0 | Some p \<Rightarrow> hard_drop_loop state p 0)"

text \<open>\<^verbatim>\<open>ghost_position\<close> reads \<^verbatim>\<open>p.kind\<close> of \<^verbatim>\<open>state.current\<close>; on \<^verbatim>\<open>None\<close> that is an
  \<^verbatim>\<open>AttributeError\<close>.\<close>

datatype ghost_error = Engine py_error | AttributeError

definition ghost_position :: "GameState \<Rightarrow> ghost_error + Piece" where
  "ghost_position state =
     (case hard_drop_distance state of
        Inl e \<Rightarrow> Inl (Engine e)
      | Inr d \<Rightarrow>
          (case current state of
             None \<Rightarrow> Inl AttributeError
           | Some p \<Rightarrow> Inr (Piece (kind p) (px p) (py p + d) (pr p))))"

definition hold_swap :: "rng \<Rightarrow> GameState \<Rightarrow> py_error + (rng \<times> GameState)" where
  "hold_swap rnd state =
     (case current state of
        None \<Rightarrow> Inr (rnd, state)
      | Some cur \<Rightarrow>
          if \<not> can_hold state then Inr (rnd, state)
          else
            (case hold state of
               None \<Rightarrow>
                 (case spawn_next rnd (state\<lparr>hold := Some (kind cur)\<rparr>) of
                    Inl e \<Rightarrow> Inl e
                  | Inr (rnd1, s1) \<Rightarrow> Inr (rnd1, s1\<lparr>can_hold := False\<rparr>))
             | Some held \<Rightarrow>
                 (let piece = Piece held (spawn_x held) (-2) 0;
                      s1 = state\<lparr>current := Some piece, hold := Some (kind cur)\<rparr>
                  in case collides s1 piece of
                       Inl e \<Rightarrow> Inl e
                     | Inr hit \<Rightarrow>
                         Inr (rnd, (if hit then s1\<lparr>game_over := True\<rparr> else s1)\<lparr>can_hold := False\<rparr>))))"

text \<open>
  The loop of \<^verbatim>\<open>lock_piece\<close> over the cells: a cell of a row \<open>< 0\<close> stops it (the flag of
  the result), any other cell is written.
\<close>

fun lock_cells ::
  "string option list list \<Rightarrow> string \<Rightarrow> (int \<times> int) list \<Rightarrow> py_error + (string option list list \<times> bool)" where
  "lock_cells g k [] = Inr (g, False)"
| "lock_cells g k ((cx, cy) # rest) =
     (if cy < 0 then Inr (g, True)
      else (case grid_set g cy cx (Some k) of
              Inl e \<Rightarrow> Inl e
            | Inr g1 \<Rightarrow> lock_cells g1 k rest))"

definition lock_piece :: "rng \<Rightarrow> GameState \<Rightarrow> py_error + (rng \<times> GameState \<times> int)" where
  "lock_piece rnd state =
     (case current state of
        None \<Rightarrow> Inr (rnd, state, 0)
      | Some cur \<Rightarrow>
          (case cells cur of
             Inl e \<Rightarrow> Inl e
           | Inr cs \<Rightarrow>
               (case lock_cells (grid state) (kind cur) cs of
                  Inl e \<Rightarrow> Inl e
                | Inr (g, True) \<Rightarrow> Inr (rnd, state\<lparr>grid := g, game_over := True\<rparr>, 0)
                | Inr (g, False) \<Rightarrow>
                    (case clear_lines (state\<lparr>grid := g\<rparr>) of
                       (s1, cleared) \<Rightarrow>
                         (case spawn_next rnd (s1\<lparr>can_hold := True, current := None\<rparr>) of
                            Inl e \<Rightarrow> Inl e
                          | Inr (rnd1, s2) \<Rightarrow> Inr (rnd1, s2, cleared))))))"


section \<open>Save and load\<close>

text \<open>
  The dictionary of \<^verbatim>\<open>to_dict\<close> and \<^verbatim>\<open>from_dict\<close>, which is also the parsed JSON
  object of the save file. Every key may be absent (\<open>None\<close>); a key that is present
  carries a value of the JSON type of its field. \<^verbatim>\<open>hold\<close> and \<^verbatim>\<open>current\<close> may also be
  \<^verbatim>\<open>null\<close> (the inner \<open>None\<close>), and the object under \<^verbatim>\<open>current\<close> has keys among
  \<^verbatim>\<open>kind\<close>, \<^verbatim>\<open>x\<close>, \<^verbatim>\<open>y\<close>, \<^verbatim>\<open>r\<close>, each of which may be missing.
\<close>

record CurrentDict =
  c_kind :: "string option"
  c_x :: "int option"
  c_y :: "int option"
  c_r :: "int option"

record SaveDict =
  d_grid :: "string option list list option"
  d_bag :: "string list option"
  d_next_queue :: "string list option"
  d_hold :: "string option option"
  d_can_hold :: "bool option"
  d_current :: "CurrentDict option option"
  d_score :: "int option"
  d_lines :: "int option"
  d_level :: "int option"
  d_combo :: "int option"
  d_back_to_back :: "bool option"
  d_game_over :: "bool option"

definition to_dict :: "GameState \<Rightarrow> SaveDict" where
  "to_dict state =
     \<lparr>d_grid = Some (map (map (\<lambda>cell. if cell \<noteq> None then cell else None)) (grid state)),
      d_bag = Some (bag state),
      d_next_queue = Some (next_queue state),
      d_hold = Some (hold state),
      d_can_hold = Some (can_hold state),
      d_current =
        Some (case current state of
                None \<Rightarrow> None
              | Some p \<Rightarrow> Some \<lparr>c_kind = Some (kind p), c_x = Some (px p),
                                c_y = Some (py p), c_r = Some (pr p)\<rparr>),
      d_score = Some (score state),
      d_lines = Some (lines state),
      d_level = Some (level state),
      d_combo = Some (combo state),
      d_back_to_back = Some (back_to_back state),
      d_game_over = Some (game_over state)\<rparr>"

text \<open>\<^verbatim>\<open>d.get(key, default)\<close> on one field.\<close>

definition dict_get :: "'a option \<Rightarrow> 'a \<Rightarrow> 'a" where
  "dict_get field dflt = (case field of None \<Rightarrow> dflt | Some v \<Rightarrow> v)"

text \<open>
  The piece of \<^verbatim>\<open>from_dict\<close>: \<^verbatim>\<open>if cur:\<close> is false for \<^verbatim>\<open>None\<close> and for the empty
  object; otherwise \<^verbatim>\<open>cur['kind']\<close>, \<^verbatim>\<open>cur['x']\<close>, \<^verbatim>\<open>cur['y']\<close>, \<^verbatim>\<open>cur['r']\<close> are read
  and a missing one raises \<^verbatim>\<open>KeyError\<close>.
\<close>

definition current_from :: "CurrentDict option \<Rightarrow> py_error + Piece option" where
  "current_from cur =
     (case cur of
        None \<Rightarrow> Inr None
      | Some c \<Rightarrow>
          if c_kind c = None \<and> c_x c = None \<and> c_y c = None \<and> c_r c = None then Inr None
          else (case (c_kind c, c_x c, c_y c, c_r c) of
                  (Some k, Some x0, Some y0, Some r0) \<Rightarrow> Inr (Some (Piece k x0 y0 r0))
                | _ \<Rightarrow> Inl KeyError))"

text \<open>
  \<^verbatim>\<open>from_dict\<close>. The piece is built before the other fields are read, so its
  \<^verbatim>\<open>KeyError\<close> comes first; the last statement computes the fall interval of the
  stored level and can raise \<^verbatim>\<open>OverflowError\<close>.
\<close>

definition from_dict :: "SaveDict \<Rightarrow> py_error + GameState" where
  "from_dict d =
     (let s = GameState_default
      in case current_from (dict_get (d_current d) None) of
           Inl e \<Rightarrow> Inl e
         | Inr cur \<Rightarrow>
           (case gravity_for_level (dict_get (d_level d) 1) of
              Inl e \<Rightarrow> Inl e
            | Inr g \<Rightarrow>
             Inr (s\<lparr>grid := map (map (\<lambda>cell. if cell \<noteq> None then cell else None)) (dict_get (d_grid d) (grid s)),
                    bag := dict_get (d_bag d) [],
                    next_queue := dict_get (d_next_queue d) [],
                    hold := dict_get (d_hold d) None,
                    can_hold := dict_get (d_can_hold d) True,
                    current := cur,
                    score := dict_get (d_score d) 0,
                    lines := dict_get (d_lines d) 0,
                    level := dict_get (d_level d) 1,
                    combo := dict_get (d_combo d) (-1),
                    back_to_back := dict_get (d_back_to_back d) False,
                    game_over := dict_get (d_game_over d) False,
                    fall_interval := g\<rparr>)))"

text \<open>
  \<^verbatim>\<open>load_game\<close>: what the file system and \<^verbatim>\<open>json.load\<close> deliver is the argument. A missing
  file gives \<^verbatim>\<open>None\<close> (``Save file not found''), and so does every exception of reading,
  parsing or \<^verbatim>\<open>from_dict\<close> (``Failed to load'').
\<close>

datatype save_file = NoFile | Unreadable | Parsed SaveDict

definition load_game :: "save_file \<Rightarrow> GameState option" where
  "load_game f =
     (case f of
        NoFile \<Rightarrow> None
      | Unreadable \<Rightarrow> None
      | Parsed d \<Rightarrow> (case from_dict d of Inl e \<Rightarrow> None | Inr state \<Rightarrow> Some state))"

section \<open>The game loop\<close>

definition new_game :: "rng \<Rightarrow> int \<Rightarrow> py_error + (rng \<times> GameState)" where
  "new_game rnd start_level =
     (case gravity_for_level start_level of
        Inl e \<Rightarrow> Inl e
      | Inr g \<Rightarrow>
          (case refill_bag rnd (GameState_default\<lparr>level := start_level, fall_interval := g\<rparr>) of
             (rnd1, s1) \<Rightarrow> spawn_next rnd1 s1))"

text \<open>
  The gameplay keys of \<^verbatim>\<open>run\<close>. Quit, pause and restart are handled before the guard
  \<^verbatim>\<open>if state.game_over or state.paused: continue\<close> and are not part of this function
  (restart is \<open>new_game\<close>, a load replaces the state by the result of \<open>load_game\<close>).
  The third component of the result is the value the event assigns to the local variable
  \<^verbatim>\<open>tspin\<close> of \<^verbatim>\<open>run\<close>, if it assigns one; the key flags of the input layer and the
  sound effects are left out.
\<close>

datatype key =
  K_LEFT | K_RIGHT | K_DOWN | K_UP | K_z | K_x | K_a | K_s | K_SPACE | K_c | K_LSHIFT | K_RSHIFT
  | K_other

definition rotate_key :: "rng \<Rightarrow> GameState \<Rightarrow> int \<Rightarrow> py_error + (rng \<times> GameState \<times> string option)" where
  "rotate_key rnd state dr =
     (case try_rotate state dr of
        Inl e \<Rightarrow> Inl e
      | Inr (s1, ok, tspin) \<Rightarrow> Inr (rnd, s1, Some tspin))"

definition move_key :: "rng \<Rightarrow> GameState \<Rightarrow> int \<Rightarrow> py_error + (rng \<times> GameState \<times> string option)" where
  "move_key rnd state dx =
     (case try_move state dx 0 of
        Inl e \<Rightarrow> Inl e
      | Inr (s1, moved) \<Rightarrow> Inr (rnd, s1, None))"

definition space_key :: "rng \<Rightarrow> GameState \<Rightarrow> py_error + (rng \<times> GameState \<times> string option)" where
  "space_key rnd state =
     (case current state of
        None \<Rightarrow> Inr (rnd, state, None)
      | Some cur \<Rightarrow>
          if hard_drop_anim state then Inr (rnd, state, None)
          else (case hard_drop_distance state of
                  Inl e \<Rightarrow> Inl e
                | Inr d \<Rightarrow>
                    if d > 0 then
                      Inr (rnd, state\<lparr>hard_drop_anim := True,
                                      hard_drop_start_y := py cur,
                                      hard_drop_target_y := py cur + d,
                                      score := score state + 2 * d\<rparr>, None)
                    else Inr (rnd, state, None)))"

definition keydown :: "rng \<Rightarrow> GameState \<Rightarrow> key \<Rightarrow> py_error + (rng \<times> GameState \<times> string option)" where
  "keydown rnd state k =
     (if game_over state \<or> paused state then Inr (rnd, state, None)
      else if k = K_LEFT then move_key rnd state (-1)
      else if k = K_RIGHT then move_key rnd state 1
      else if k = K_DOWN then Inr (rnd, state, None)
      else if k = K_UP \<or> k = K_z then rotate_key rnd state 1
      else if k = K_x then rotate_key rnd state (-1)
      else if k = K_a \<or> k = K_s then rotate_key rnd state 2
      else if k = K_SPACE then space_key rnd state
      else if k = K_c \<or> k = K_LSHIFT \<or> k = K_RSHIFT then
        (case hold_swap rnd state of Inl e \<Rightarrow> Inl e | Inr (rnd1, s1) \<Rightarrow> Inr (rnd1, s1, None))
      else Inr (rnd, state, None))"

text \<open>
  The hard-drop animation step of a frame. \<open>finished\<close> is the clock's answer \<^verbatim>\<open>t >= 1.0\<close>.
  When it is true the piece is put on its target row and locked; the value of
  \<^verbatim>\<open>lock_piece\<close> is not used.
\<close>

definition hard_drop_step :: "bool \<Rightarrow> rng \<Rightarrow> GameState \<Rightarrow> py_error + (rng \<times> GameState)" where
  "hard_drop_step finished rnd state =
     (case current state of
        None \<Rightarrow> Inr (rnd, state)
      | Some cur \<Rightarrow>
          if hard_drop_anim state \<and> finished then
            (case lock_piece rnd
                    (state\<lparr>current := Some (Piece (kind cur) (px cur) (hard_drop_target_y state) (pr cur))\<rparr>) of
               Inl e \<Rightarrow> Inl e
             | Inr (rnd1, s1, cleared) \<Rightarrow> Inr (rnd1, s1\<lparr>hard_drop_anim := False\<rparr>))
          else Inr (rnd, state))"

text \<open>
  Auto shift: the timer allows at most \<open>n\<close> moves by \<open>dx\<close>; the loop also stops at the
  first move that fails.
\<close>

fun auto_shift :: "nat \<Rightarrow> int \<Rightarrow> GameState \<Rightarrow> py_error + GameState" where
  "auto_shift 0 dx state = Inr state"
| "auto_shift (Suc n) dx state =
     (case try_move state dx 0 of
        Inl e \<Rightarrow> Inl e
      | Inr (s1, moved) \<Rightarrow> if \<not> moved then Inr s1 else auto_shift n dx s1)"

text \<open>
  One pass of the gravity loop \<^verbatim>\<open>while fall_accum >= gravity\<close>: the piece moves down
  one row (one point when the down key is held), or it is locked and the cleared lines
  are scored with the constant \<^verbatim>\<open>'none'\<close>.
\<close>

definition gravity_tick :: "bool \<Rightarrow> rng \<Rightarrow> GameState \<Rightarrow> py_error + (rng \<times> GameState)" where
  "gravity_tick down rnd state =
     (case try_move state 0 1 of
        Inl e \<Rightarrow> Inl e
      | Inr (s1, moved) \<Rightarrow>
          if moved then Inr (rnd, if down then s1\<lparr>score := score s1 + 1\<rparr> else s1)
          else (case lock_piece rnd s1 of
                  Inl e \<Rightarrow> Inl e
                | Inr (rnd1, s2, cleared) \<Rightarrow>
                    if cleared > 0 then
                      (case score_lines s2 cleared ''none'' of
                         Inl e \<Rightarrow> Inl e
                       | Inr s3 \<Rightarrow> Inr (rnd1, s3))
                    else Inr (rnd1, s2)))"

fun gravity_loop :: "nat \<Rightarrow> bool \<Rightarrow> rng \<Rightarrow> GameState \<Rightarrow> py_error + (rng \<times> GameState)" where
  "gravity_loop 0 down rnd state = Inr (rnd, state)"
| "gravity_loop (Suc n) down rnd state =
     (case gravity_tick down rnd state of
        Inl e \<Rightarrow> Inl e
      | Inr (rnd1, s1) \<Rightarrow> gravity_loop n down rnd1 s1)"

text \<open>
  What one frame does to the state after its events: nothing when the game is over or
  paused; otherwise the animation step, the auto shift, a spawn when there is no piece,
  and the gravity loop. The clock decides \<open>finished\<close>, the number of auto-shift moves
  \<open>shifts\<close> in direction \<open>dx\<close> and the number \<open>ticks\<close> of gravity passes; \<open>down\<close> is the
  state of the down key.
\<close>

record frame_input =
  finished :: bool
  shift_dx :: int
  shifts :: nat
  down :: bool
  ticks :: nat

definition frame :: "frame_input \<Rightarrow> rng \<Rightarrow> GameState \<Rightarrow> py_error + (rng \<times> GameState)" where
  "frame inp rnd state =
     (if game_over state then Inr (rnd, state)
      else if paused state then Inr (rnd, state)
      else
        (case hard_drop_step (finished inp) rnd state of
           Inl e \<Rightarrow> Inl e
         | Inr (rnd1, s1) \<Rightarrow>
             (case auto_shift (shifts inp) (shift_dx inp) s1 of
                Inl e \<Rightarrow> Inl e
              | Inr s2 \<Rightarrow>
                  (case (if current s2 = None then spawn_next rnd1 s2 else Inr (rnd1, s2)) of
                     Inl e \<Rightarrow> Inl e
                   | Inr (rnd2, s3) \<Rightarrow> gravity_loop (ticks inp) (down inp) rnd2 s3))))"

section \<open>Well-formed states\<close>

text \<open>
  The board has \<^verbatim>\<open>PLAY_ROWS\<close> rows of \<^verbatim>\<open>PLAY_COLS\<close> cells, and a kind is one of the
  seven keys of \<open>SHAPES\<close>.
\<close>

definition board_ok :: "'a list list \<Rightarrow> bool" where
  "board_ok g \<longleftrightarrow> int (length g) = PLAY_ROWS \<and> (\<forall>row \<in> set g. int (length row) = PLAY_COLS)"

definition known_kind :: "string \<Rightarrow> bool" where
  "known_kind k \<longleftrightarrow> k \<in> set (map fst SHAPES)"


section \<open>Example states\<close>

text \<open>
  A vertical I piece two rows above the board during a hard drop of one row: a locked
  cell at row 3, column 5 stops it with its top cell still at row \<open>-1\<close>.
\<close>

definition drop_out_state :: GameState where
  "drop_out_state =
     GameState_default
       \<lparr>grid := replicate 3 (replicate 10 None) @ [(replicate 10 None)[5 := Some ''O'']]
                 @ replicate 16 (replicate 10 None),
        next_queue := [''O'', ''S'', ''Z'', ''J'', ''L''],
        current := Some (Piece ''I'' 3 (-2) 1),
        score := 2,
        hard_drop_anim := True, hard_drop_start_y := -2, hard_drop_target_y := -1\<rparr>"

text \<open>A T piece in its second orientation against the left wall of an empty board.\<close>

definition wall_kick_state :: GameState where
  "wall_kick_state = GameState_default\<lparr>current := Some (Piece ''T'' (-1) 5 1)\<rparr>"

text \<open>
  An O piece above a board whose only locked cell, at row 5 and column 4, overhangs
  empty rows; and an O piece far above an empty board.
\<close>

definition overhang_state :: GameState where
  "overhang_state =
     GameState_default
       \<lparr>grid := replicate 5 (replicate 10 None) @ [(replicate 10 None)[4 := Some ''Z'']]
                 @ replicate 14 (replicate 10 None),
        current := Some (Piece ''O'' 3 (-2) 0)\<rparr>"

definition high_state :: GameState where
  "high_state = GameState_default\<lparr>current := Some (Piece ''O'' 3 (-30) 0)\<rparr>"

text \<open>
  A board whose top row holds a locked cell in column 5, under the spawn cells of a T
  piece, with T at the front of a full queue.
\<close>

definition blocked_spawn_state :: GameState where
  "blocked_spawn_state =
     GameState_default
       \<lparr>grid := (replicate 10 None)[5 := Some ''L''] # replicate 19 (replicate 10 None),
        next_queue := [''T'', ''O'', ''S'', ''Z'', ''J'', ''L'']\<rparr>"

text \<open>
  The state a colliding spawn leaves: the game is over and the T piece sits on its spawn
  cells, above a locked cell in the top row.
\<close>

definition over_state :: GameState where
  "over_state =
     GameState_default
       \<lparr>grid := (replicate 10 None)[5 := Some ''L''] # replicate 19 (replicate 10 None),
        next_queue := [''O'', ''S'', ''Z'', ''J'', ''L''],
        current := Some (Piece ''T'' 3 (-2) 0),
        game_over := True\<rparr>"

text \<open>
  The condition under which \<open>current_from\<close> raises: the object under \<^verbatim>\<open>current\<close> has a
  key and lacks a key.
\<close>

definition missing_key :: "CurrentDict \<Rightarrow> bool" where
  "missing_key c \<longleftrightarrow>
     (c_kind c \<noteq> None \<or> c_x c \<noteq> None \<or> c_y c \<noteq> None \<or> c_r c \<noteq> None)
     \<and> (c_kind c = None \<or> c_x c = None \<or> c_y c = None \<or> c_r c = None)"

text \<open>
  Save files: one with a 1x1 board and a piece of the unknown kind \<^verbatim>\<open>Q\<close>, and one
  whose \<^verbatim>\<open>current\<close> object has only the key \<^verbatim>\<open>kind\<close>.
\<close>

definition empty_save :: SaveDict where
  "empty_save =
     \<lparr>d_grid = None, d_bag = None, d_next_queue = None, d_hold = None, d_can_hold = None,
      d_current = None, d_score = None, d_lines = None, d_level = None, d_combo = None,
      d_back_to_back = None, d_game_over = None\<rparr>"

definition bad_save :: SaveDict where
  "bad_save =
     empty_save
       \<lparr>d_grid := Some [[Some ''Q'']],
        d_current := Some (Some \<lparr>c_kind = Some ''Q'', c_x = Some 0, c_y = Some 0, c_r = Some 7\<rparr>),
        d_level := Some 0\<rparr>"

definition partial_save :: SaveDict where
  "partial_save =
     empty_save\<lparr>d_current := Some (Some \<lparr>c_kind = Some ''T'', c_x = None, c_y = None, c_r = None\<rparr>)\<rparr>"

text \<open>
  A T-spin slot: the bottom row is full but for column 5, a locked J piece overhangs
  column 4 at row 17, and the T piece stands upright in the slot, in orientation 3.
\<close>

definition tspin_setup_state :: GameState where
  "tspin_setup_state =
     GameState_default
       \<lparr>grid := replicate 17 (replicate 10 None)
                 @ [[None, None, Some ''J'', Some ''J'', Some ''J'', None, None, None, None, None],
                    [None, None, Some ''J'', None, None, None, None, None, None, None],
                    [Some ''I'', Some ''I'', Some ''I'', Some ''I'', Some ''O'', None, Some ''O'',
                     Some ''I'', Some ''I'', Some ''I'']],
        next_queue := [''O'', ''S'', ''Z'', ''J'', ''L''],
        current := Some (Piece ''T'' 4 17 3)\<rparr>"

text \<open>A lone locked cell at row 17, column 1, and an upright T against the left wall.\<close>

definition lone_block_state :: GameState where
  "lone_block_state =
     GameState_default
       \<lparr>grid := replicate 17 (replicate 10 None)
                 @ [[None, Some ''S'', None, None, None, None, None, None, None, None]]
                 @ replicate 2 (replicate 10 None),
        current := Some (Piece ''T'' (-1) 17 3)\<rparr>"

text \<open>
  A flat T against the left wall under a row 17 that is full but for column 0; turning
  it counter-clockwise fills that gap.
\<close>

definition wall_spin_state :: GameState where
  "wall_spin_state =
     GameState_default
       \<lparr>grid := replicate 17 (replicate 10 None)
                 @ [None # replicate 9 (Some ''I''),
                    [None, None, None, Some ''Z'', Some ''Z'', Some ''Z'', Some ''Z'', Some ''Z'', Some ''Z'', Some ''Z''],
                    [None, None, None, Some ''Z'', Some ''Z'', Some ''Z'', Some ''Z'', Some ''Z'', Some ''Z'', Some ''Z'']],
        next_queue := [''O'', ''S'', ''Z'', ''J'', ''L''],
        current := Some (Piece ''T'' (-1) 17 0)\<rparr>"

text \<open>A spawned I piece over a bottom row that lacks exactly its four cells.\<close>

definition hard_drop_clear_state :: GameState where
  "hard_drop_clear_state =
     GameState_default
       \<lparr>grid := replicate 19 (replicate 10 None)
                 @ [[Some ''O'', Some ''O'', Some ''O'', None, None, None, None, Some ''O'', Some ''O'', Some ''O'']],
        next_queue := [''O'', ''S'', ''Z'', ''J'', ''L''],
        current := Some (Piece ''I'' 3 (-2) 0)\<rparr>"

subsection \<open>The T-spin test in the words of the specification\<close>

text \<open>
  The specification examines the diagonal neighbours of the centre of the T, the cell of
  the piece that touches the other three. \<open>spec_is_t_spin\<close> counts these four cells as
  \<open>is_t_spin\<close> counts its own.
\<close>

definition spec_center :: "(int \<times> int) list \<Rightarrow> (int \<times> int) option" where
  "spec_center cs =
     find (\<lambda>c. list_all (\<lambda>d. d = c \<or> \<bar>fst d - fst c\<bar> + \<bar>snd d - snd c\<bar> = 1) cs) cs"

definition spec_corners :: "int \<times> int \<Rightarrow> (int \<times> int) list" where
  "spec_corners c =
     [(fst c - 1, snd c - 1), (fst c + 1, snd c - 1), (fst c - 1, snd c + 1), (fst c + 1, snd c + 1)]"

definition spec_is_t_spin :: "GameState \<Rightarrow> Piece \<Rightarrow> py_error + string" where
  "spec_is_t_spin state piece =
     (if kind piece \<noteq> ''T'' then Inr ''none''
      else (case cells piece of
              Inl e \<Rightarrow> Inl e
            | Inr cs \<Rightarrow>
                (case spec_center cs of
                   None \<Rightarrow> Inr ''none''
                 | Some c \<Rightarrow>
                     (case count_occupied (grid state) (spec_corners c) 0 of
                        Inl e \<Rightarrow> Inl e
                      | Inr occupied \<Rightarrow> if occupied \<ge> 3 then Inr ''tspin'' else Inr ''none''))))"

text \<open>A state with a very long combo and the back-to-back flag set.\<close>

definition big_combo_state :: GameState where
  "big_combo_state = GameState_default\<lparr>combo := 120095990063214, back_to_back := True\<rparr>"

text \<open>A save file that holds nothing but the level \<open>-7000\<close>.\<close>

definition low_level_save :: SaveDict where
  "low_level_save = empty_save\<lparr>d_level := Some (- 7000)\<rparr>"

section \<open>The shape catalog, evaluated\<close>

lemma upt_4: "[0..<4] = [0, 1, 2, 3]"
  by (simp add: upt_rec)

lemma ROTATED_table:
  "ROTATED =
    [(''I'', [[''....'', ''IIII'', ''....'', ''....''], [''..I.'', ''..I.'', ''..I.'', ''..I.'']]),
     (''O'', [[''....'', ''.OO.'', ''.OO.'', ''....'']]),
     (''T'', [[''....'', ''.TTT'', ''..T.'', ''....''], [''....'', ''..T.'', ''.TT.'', ''..T.''],
              [''....'', ''.T..'', ''TTT.'', ''....''], [''.T..'', ''.TT.'', ''.T..'', ''....'']]),
     (''S'', [[''....'', ''..SS'', ''.SS.'', ''....''], [''....'', ''.S..'', ''.SS.'', ''..S.'']]),
     (''Z'', [[''....'', ''.ZZ.'', ''..ZZ'', ''....''], [''....'', ''..Z.'', ''.ZZ.'', ''.Z..'']]),
     (''J'', [[''....'', ''.JJJ'', ''.J..'', ''....''], [''....'', ''.JJ.'', ''..J.'', ''..J.''],
              [''....'', ''..J.'', ''JJJ.'', ''....''], [''.J..'', ''.J..'', ''.JJ.'', ''....'']]),
     (''L'', [[''....'', ''.LLL'', ''.L..'', ''....''], [''....'', ''.LL.'', ''..L.'', ''..L.''],
              [''....'', ''..L.'', ''LLL.'', ''....''], [''.L..'', ''.L..'', ''.LL.'', ''....'']])]"
  by code_simp

lemma known_kind_iff:
  "known_kind k \<longleftrightarrow> k \<in> {''I'', ''O'', ''T'', ''S'', ''Z'', ''J'', ''L''}"
  by (simp add: known_kind_def SHAPES_def)

lemma map_of_ROTATED_known: "map_of ROTATED k \<noteq> None \<longleftrightarrow> known_kind k"
  unfolding known_kind_iff ROTATED_table by simp

lemma rotation_count:
  "map_of ROTATED k = Some rots \<Longrightarrow> map_of ROTATIONS k = Some (length rots) \<and> rots \<noteq> []"
  unfolding ROTATED_table ROTATIONS_def by (auto split: if_splits)

lemma shape_cells_row_sorted:
  assumes "sorted js"
  shows "sorted (map snd (concat (map (\<lambda>j. concat (map (\<lambda>i. if P j i then [(x0 + int i, y0 + int j)] else []) is)) js)))"
  using assms
proof (induction js)
  case Nil
  then show ?case by simp
next
  case (Cons j js)
  have row: "\<forall>c \<in> set (concat (map (\<lambda>i. if P j i then [(x0 + int i, y0 + int j)] else []) is)). snd c = y0 + int j"
    by auto
  have later: "\<forall>c \<in> set (concat (map (\<lambda>j. concat (map (\<lambda>i. if P j i then [(x0 + int i, y0 + int j)] else []) is)) js)). y0 + int j \<le> snd c"
    using Cons.prems by auto
  have "sorted (map snd (concat (map (\<lambda>i. if P j i then [(x0 + int i, y0 + int j)] else []) is)))"
    using row by (induction "is") auto
  then show ?case
    using Cons row later by (auto simp: sorted_append)
qed

lemma shape_cells_sorted: "sorted (map snd (shape_cells g x0 y0))"
  unfolding shape_cells_def by (rule shape_cells_row_sorted) simp

lemma shape_cells_bounds:
  "(cx, cy) \<in> set (shape_cells g x0 y0) \<Longrightarrow> x0 \<le> cx \<and> cx \<le> x0 + 3 \<and> y0 \<le> cy \<and> cy \<le> y0 + 3"
  unfolding shape_cells_def by (auto split: if_splits)

lemma shape_cells_shift:
  "shape_cells g x0 y0 = map (\<lambda>(i, j). (x0 + i, y0 + j)) (shape_cells g 0 0)"
  unfolding shape_cells_def by (simp add: map_concat comp_def if_distrib cong: if_cong)

lemma ROTATED_shapes_nonempty:
  "map_of ROTATED k = Some rots \<Longrightarrow> g \<in> set rots \<Longrightarrow> shape_cells g 0 0 \<noteq> []"
  unfolding ROTATED_table by (auto simp: shape_cells_def upt_4 split: if_splits)

section \<open>Cells of a piece and collision\<close>

lemma cells_Inr_iff:
  "cells p = Inr cs \<longleftrightarrow>
     (\<exists>rots. map_of ROTATED (kind p) = Some rots \<and>
        cs = shape_cells (rots ! nat (pr p mod int (length rots))) (px p) (py p))"
proof (cases "map_of ROTATED (kind p)")
  case None
  then show ?thesis by (simp add: cells_def piece_grid_def)
next
  case (Some rots)
  then have ne: "rots \<noteq> []" by (simp add: rotation_count)
  then have "py_index rots (pr p mod int (length rots)) = Some (nat (pr p mod int (length rots)))"
    by (simp add: py_index_def)
  with Some ne show ?thesis
    by (auto simp: cells_def piece_grid_def py_getitem_def)
qed

lemma cells_known: "known_kind (kind p) \<Longrightarrow> \<exists>cs. cells p = Inr cs"
  unfolding cells_Inr_iff using map_of_ROTATED_known [of "kind p"] by auto

lemma cells_unknown: "\<not> known_kind (kind p) \<Longrightarrow> cells p = Inl KeyError"
  using map_of_ROTATED_known [of "kind p"] by (simp add: cells_def piece_grid_def)

lemma cells_nonempty: "cells p = Inr cs \<Longrightarrow> cs \<noteq> []"
proof -
  assume "cells p = Inr cs"
  then obtain rots where r: "map_of ROTATED (kind p) = Some rots"
    and cs: "cs = shape_cells (rots ! nat (pr p mod int (length rots))) (px p) (py p)"
    unfolding cells_Inr_iff by blast
  from r have ne: "rots \<noteq> []" by (simp add: rotation_count)
  then have "nat (pr p mod int (length rots)) < length rots"
    by (simp add: nat_less_iff)
  then have "rots ! nat (pr p mod int (length rots)) \<in> set rots" by simp
  from ROTATED_shapes_nonempty [OF r this] show ?thesis
    unfolding cs by (subst shape_cells_shift) simp
qed

lemma cells_rows: "cells p = Inr cs \<Longrightarrow> (cx, cy) \<in> set cs \<Longrightarrow> py p \<le> cy \<and> cy \<le> py p + 3 \<and> px p \<le> cx \<and> cx \<le> px p + 3"
  unfolding cells_Inr_iff using shape_cells_bounds by blast

lemma cells_sorted: "cells p = Inr cs \<Longrightarrow> sorted (map snd cs)"
  unfolding cells_Inr_iff using shape_cells_sorted by blast

lemma collides_cells_free:
  "collides_cells g cs = Inr False \<Longrightarrow> (cx, cy) \<in> set cs \<Longrightarrow> 0 \<le> cx \<and> cx < PLAY_COLS \<and> cy < PLAY_ROWS"
  by (induction g cs rule: collides_cells.induct) (auto split: if_splits sum.splits)

lemma collides_free_row:
  assumes "collides state q = Inr False"
  shows "py q < PLAY_ROWS"
proof -
  from assms obtain cs where cs: "cells q = Inr cs" and free: "collides_cells (grid state) cs = Inr False"
    by (auto simp: collides_def split: sum.splits)
  from cells_nonempty [OF cs] obtain cx cy where c: "(cx, cy) \<in> set cs"
    by (cases cs) auto
  from collides_cells_free [OF free c] cells_rows [OF cs c] show ?thesis by simp
qed

termination hard_drop_loop
proof (relation "measure (\<lambda>(state, p, dist). nat (PLAY_ROWS - py p - dist))")
  show "wf (measure (\<lambda>(state, p, dist). nat (PLAY_ROWS - py p - dist)))" by simp
next
  fix state p dist hit
  assume "collides state (Piece (kind p) (px p) (py p + dist + 1) (pr p)) = Inr hit" and "\<not> hit"
  then have "collides state (Piece (kind p) (px p) (py p + dist + 1) (pr p)) = Inr False" by simp
  from collides_free_row [OF this] have "py p + dist + 1 < PLAY_ROWS" by simp
  then show "((state, p, dist + 1), (state, p, dist)) \<in> measure (\<lambda>(state, p, dist). nat (PLAY_ROWS - py p - dist))"
    by simp
qed

section \<open>Float rounding and range\<close>

lemma bit_length_bound: "n < 2 ^ k \<Longrightarrow> bit_length n \<le> k"
proof (induction k arbitrary: n)
  case 0
  then show ?case by (simp add: bit_length.simps)
next
  case (Suc k)
  show ?case
  proof (cases "n = 0")
    case True
    then show ?thesis by (simp add: bit_length.simps)
  next
    case False
    from Suc.prems have "n div 2 < 2 ^ k" by auto
    from Suc.IH [OF this] False show ?thesis
      by (subst bit_length.simps) simp
  qed
qed

lemma round53_small: "n < 2 ^ 53 \<Longrightarrow> round53 n = n"
  using bit_length_bound [of n 53] by (simp add: round53_def)

lemma py_float_of_int_small: "\<bar>n\<bar> < 2 ^ 53 \<Longrightarrow> py_float_of_int n = Inr n"
proof -
  assume small: "\<bar>n\<bar> < 2 ^ 53"
  then have "nat \<bar>n\<bar> < 2 ^ 53" by (simp add: nat_less_iff)
  then have r: "round53 (nat \<bar>n\<bar>) = nat \<bar>n\<bar>" by (rule round53_small)
  have "\<bar>n\<bar> < (2 :: int) ^ 1024"
    using small by (rule less_trans) simp
  then show ?thesis
    by (simp add: py_float_of_int_def r Let_def mult_sgn_abs)
qed

lemma int_times_1_5_exact:
  assumes "0 \<le> pts" and "3 * pts < 2 ^ 53"
  shows "int_times_1_5 pts = Inr ((3 * pts) div 2)"
proof -
  from assms have "\<bar>pts\<bar> < 2 ^ 53" by simp
  then have f: "py_float_of_int pts = Inr pts" by (rule py_float_of_int_small)
  from assms have "nat (3 * pts) < 2 ^ 53" by (simp add: nat_less_iff)
  then have r: "round53 (nat (3 * pts)) = nat (3 * pts)" by (rule round53_small)
  have twice: "int (round53 (nat (3 * \<bar>pts\<bar>))) = 3 * pts"
    using assms(1) by (simp add: r)
  have finite: "\<not> (2 :: int) ^ 1025 \<le> 3 * pts"
    using assms(2) by (simp add: not_le less_trans)
  have sign: "sgn pts * ((3 * pts) div 2) = (3 * pts) div 2"
    using assms(1) by (cases "pts = 0") simp_all
  show ?thesis
    unfolding int_times_1_5_def f by (simp only: sum.case Let_def twice finite if_False sign)
qed

lemma gravity_in_range:
  assumes "- 6736 < lv" and "lv \<le> 2 ^ 53"
  shows "\<not> gravity_overflows lv"
proof -
  from assms have "\<bar>lv - 1\<bar> < 2 ^ 53" by simp
  from py_float_of_int_small [OF this] assms show ?thesis
    by (simp add: gravity_overflows_def)
qed

lemma gravity_for_level_ok: "\<not> gravity_overflows lv \<Longrightarrow> gravity_for_level lv = Inr (Gravity lv)"
  by (simp add: gravity_for_level_def)

lemma gravity_for_level_error:
  "gravity_for_level lv = Inl e \<longleftrightarrow> e = OverflowError \<and> gravity_overflows lv"
  by (auto simp: gravity_for_level_def)


lemma bit_length_lower: "2 ^ k \<le> n \<Longrightarrow> k < bit_length n"
proof (induction k arbitrary: n)
  case 0
  then have "n \<noteq> 0" by (cases "n = 0") simp_all
  then show ?case by (subst bit_length.simps) simp
next
  case (Suc k)
  from Suc.prems have "n \<noteq> 0" by (cases "n = 0") simp_all
  from Suc.prems have "2 ^ k \<le> n div 2" by auto
  from Suc.IH [OF this] \<open>n \<noteq> 0\<close> show ?case
    by (subst bit_length.simps) simp
qed

lemma bit_length_eq: "2 ^ k \<le> n \<Longrightarrow> n < 2 ^ Suc k \<Longrightarrow> bit_length n = Suc k"
  using bit_length_lower [of k n] bit_length_bound [of n "Suc k"] by simp

lemma bit_length_pos_lower: "n \<noteq> 0 \<Longrightarrow> 2 ^ (bit_length n - 1) \<le> n"
proof (induction n rule: bit_length.induct)
  case (1 n)
  show ?case
  proof (cases "n div 2 = 0")
    case True
    with "1.prems" have "n = 1" by (simp add: div_eq_0_iff)
    then show ?thesis by (simp add: bit_length.simps)
  next
    case False
    from "1.IH" [OF "1.prems" False] have "2 ^ (bit_length (n div 2) - 1) \<le> n div 2" .
    moreover have "bit_length (n div 2) \<noteq> 0"
      using False by (subst bit_length.simps) simp
    ultimately have "2 ^ bit_length (n div 2) \<le> 2 * (n div 2)"
      by (cases "bit_length (n div 2)") simp_all
    also have "\<dots> \<le> n" by simp
    finally show ?thesis
      using "1.prems" by (subst bit_length.simps) simp
  qed
qed

lemma round53_lower:
  assumes "n \<noteq> 0"
  shows "2 ^ (bit_length n - 1) \<le> round53 n"
proof (cases "bit_length n \<le> 53")
  case True
  with bit_length_pos_lower [OF assms] show ?thesis by (simp add: round53_def)
next
  case False
  define sh where "sh = bit_length n - 53"
  define q where "q = n div 2 ^ sh"
  have len: "bit_length n - 1 = 52 + sh" using False by (simp add: sh_def)
  have "2 ^ (52 + sh) \<le> n"
    using bit_length_pos_lower [OF assms] by (simp only: len)
  then have "2 ^ 52 * 2 ^ sh \<le> n"
    by (simp only: power_add)
  then have "2 ^ 52 \<le> q"
    unfolding q_def by (simp add: less_eq_div_iff_mult_less_eq)
  then have "2 ^ 52 * 2 ^ sh \<le> q * 2 ^ sh" by simp
  also have "\<dots> \<le> round53 n"
    using False by (simp add: round53_def Let_def sh_def q_def)
  finally show ?thesis by (simp only: len power_add)
qed

lemma round53_big: "2 ^ k \<le> n \<Longrightarrow> 2 ^ k \<le> round53 n"
proof -
  assume big: "2 ^ k \<le> n"
  then have "n \<noteq> 0" by (cases "n = 0") simp_all
  from bit_length_lower [OF big] have "k \<le> bit_length n - 1" by simp
  then have "(2 :: nat) ^ k \<le> 2 ^ (bit_length n - 1)" by (simp add: power_increasing)
  also have "\<dots> \<le> round53 n" by (rule round53_lower [OF \<open>n \<noteq> 0\<close>])
  finally show ?thesis .
qed

lemma py_float_of_int_overflow: "2 ^ 1024 \<le> \<bar>n\<bar> \<Longrightarrow> py_float_of_int n = Inl OverflowError"
proof -
  assume "2 ^ 1024 \<le> \<bar>n\<bar>"
  then have "2 ^ 1024 \<le> nat \<bar>n\<bar>" by (simp add: le_nat_iff)
  from round53_big [OF this] have "(2 :: int) ^ 1024 \<le> int (round53 (nat \<bar>n\<bar>))"
    by (metis of_nat_le_iff of_nat_numeral of_nat_power)
  then show ?thesis by (simp add: py_float_of_int_def Let_def)
qed

lemma gravity_out_of_range:
  assumes "lv \<le> - 6736 \<or> 2 ^ 1024 < lv"
  shows "gravity_overflows lv"
proof (cases "2 ^ 1024 \<le> \<bar>lv - 1\<bar>")
  case True
  from py_float_of_int_overflow [OF this] show ?thesis by (simp add: gravity_overflows_def)
next
  case False
  with assms have low: "lv \<le> - 6736" by auto
  show ?thesis
  proof (cases "\<bar>lv - 1\<bar> < 2 ^ 53")
    case True
    from py_float_of_int_small [OF this] low show ?thesis by (simp add: gravity_overflows_def)
  next
    case big: False
    then have "2 ^ 53 \<le> nat \<bar>lv - 1\<bar>" by (simp add: le_nat_iff)
    from round53_big [OF this] have "(2 :: int) ^ 53 \<le> int (round53 (nat \<bar>lv - 1\<bar>))"
      by (metis of_nat_le_iff of_nat_numeral of_nat_power)
    with low show ?thesis
      by (auto simp: gravity_overflows_def py_float_of_int_def Let_def sgn_if)
  qed
qed

section \<open>Scoring\<close>

text \<open>
  Claim C2, amended. For every state and every call of \<open>score_lines\<close> with at least one
  line, provided the two float computations of the call stay in range (three times the
  total below \<open>2 ^ 53\<close> when the multiplier applies, so that the double product is
  exact, and no overflow in the fall interval when the level is raised): the call
  returns; the base points are 400/700/100 for a T-spin clear of 1/2/other lines and
  100/300/500/800 for a clear of 1/2/3/4-or-more lines without T-spin; the combo counter
  goes up by one and, when the new counter is positive, 50 times the counter is added;
  when the clear is difficult (a T-spin, or four or more lines) and the back-to-back
  flag was set, the total is multiplied by 1.5 and truncated; the flag afterwards is set
  exactly when the clear was difficult.
\<close>

theorem score_lines_table:
  assumes n: "1 \<le> n"
    and pts: "pts =
       (if tspin \<noteq> ''none'' then (if n = 1 then 400 else if n = 2 then 700 else 100)
        else (if n = 1 then 100 else if n = 2 then 300 else if n = 3 then 500 else 800))
       + (if 0 < combo s + 1 then 50 * (combo s + 1) else 0)"
    and exact: "(tspin \<noteq> ''none'' \<or> 4 \<le> n) \<and> back_to_back s \<longrightarrow> 3 * pts < 2 ^ 53"
    and lvl: "(lines s + n) div 10 + 1 \<le> level s \<or> \<not> gravity_overflows ((lines s + n) div 10 + 1)"
  shows "\<exists>s'. score_lines s n tspin = Inr s'
           \<and> combo s' = combo s + 1
           \<and> back_to_back s' = (tspin \<noteq> ''none'' \<or> 4 \<le> n)
           \<and> score s' - score s =
               (if (tspin \<noteq> ''none'' \<or> 4 \<le> n) \<and> back_to_back s then (3 * pts) div 2 else pts)"
proof -
  let ?difficult = "tspin \<noteq> ''none'' \<or> 4 \<le> n"
  let ?pts0 = "(if tspin \<noteq> ''none'' then (if n = 1 then 400 else if n = 2 then 700 else 100)
             else (if n = 1 then 100 else if n = 2 then 300 else if n = 3 then 500
                   else if n \<ge> 4 then 800 else (0 :: int)))"
  let ?pts1 = "(if combo s + 1 > 0 then ?pts0 + 50 * (combo s + 1) else ?pts0)"
  have pts1: "?pts1 = pts" using n pts by auto
  have pos: "0 \<le> pts" using n pts by auto
  define pts2 where "pts2 = (if ?difficult \<and> back_to_back s then (3 * pts) div 2 else pts)"
  have mult: "(if ?difficult \<and> back_to_back s then int_times_1_5 pts else Inr pts) = Inr pts2"
    using exact pos by (auto simp: pts2_def int_times_1_5_exact)
  have b2b: "(if tspin \<noteq> ''none'' then True else n \<ge> 4) = ?difficult" by simp
  let ?s1 = "s\<lparr>combo := combo s + 1, back_to_back := ?difficult, lines := lines s + n\<rparr>"
  let ?lv = "(lines s + n) div 10 + 1"
  have run: "score_lines s n tspin =
      (if ?lv > level s then
         (case gravity_for_level ?lv of
            Inl e \<Rightarrow> Inl e
          | Inr g \<Rightarrow> Inr (?s1\<lparr>level := ?lv, fall_interval := g, score := score s + pts2\<rparr>))
       else Inr (?s1\<lparr>score := score s + pts2\<rparr>))"
    using n unfolding score_lines_def Let_def b2b pts1 mult by simp
  show ?thesis
  proof (cases "?lv > level s")
    case True
    with lvl have "gravity_for_level ?lv = Inr (Gravity ?lv)"
      by (simp add: gravity_for_level_ok)
    with run True show ?thesis by (simp add: pts2_def)
  next
    case False
    with run show ?thesis by (simp add: pts2_def)
  qed
qed

text \<open>
  The claim as stated fails beyond the range of exact doubles: at combo 120095990063214
  with back-to-back set, a T-spin single has the total 6004799503161150, whose exact
  product with 1.5 is 9007199254741725, and \<open>score_lines\<close> awards 9007199254741724.
\<close>

lemma int_times_1_5_rounds: "int_times_1_5 6004799503161150 = Inr 9007199254741724"
proof -
  have f: "py_float_of_int 6004799503161150 = Inr 6004799503161150"
    by (rule py_float_of_int_small) simp
  have len: "bit_length 18014398509483450 = 55"
    by (rule bit_length_eq [of 54, simplified]) simp_all
  have r: "round53 18014398509483450 = 18014398509483448"
    by (simp add: round53_def len Let_def)
  show ?thesis
    by (simp add: int_times_1_5_def f r)
qed

theorem score_lines_counterexample:
  "map_sum id score (score_lines big_combo_state 1 ''tspin'') = Inr 9007199254741724
   \<and> 400 + 50 * (combo big_combo_state + 1) = 6004799503161150
   \<and> (3 * (400 + 50 * (combo big_combo_state + 1))) div 2 = 9007199254741725"
  by (simp add: score_lines_def big_combo_state_def GameState_default_def int_times_1_5_rounds)

text \<open>
  The concrete case of the claim: from a fresh state a Tetris awards 800 points, leaves
  the combo at 0 and sets back-to-back; the T-spin single that follows awards
  \<open>(400 + 50) * 1.5 = 675\<close>.
\<close>

theorem score_lines_table_witness:
  "\<exists>s1 s2. score_lines GameState_default 4 ''none'' = Inr s1
      \<and> score s1 - score GameState_default = 800 \<and> combo s1 = 0 \<and> back_to_back s1
      \<and> score_lines s1 1 ''tspin'' = Inr s2
      \<and> score s2 - score s1 = 675 \<and> back_to_back s2"
proof -
  let ?s1 = "GameState_default\<lparr>combo := 0, back_to_back := True, lines := 4, score := 800\<rparr>"
  have first: "score_lines GameState_default 4 ''none'' = Inr ?s1"
    by (simp add: score_lines_def GameState_default_def)
  have start: "combo GameState_default = -1" "\<not> back_to_back GameState_default"
    "lines GameState_default = 0" "level GameState_default = 1"
    by (simp_all add: GameState_default_def)
  from score_lines_table [of 4 800 "''none''" GameState_default] first start
  have one: "score ?s1 - score GameState_default = 800 \<and> combo ?s1 = 0 \<and> back_to_back ?s1"
    by simp
  have mid: "combo ?s1 = 0" "back_to_back ?s1" "lines ?s1 = 4" "level ?s1 = 1"
    by (simp_all add: GameState_default_def)
  from score_lines_table [of 1 450 "''tspin''" ?s1] mid
  obtain s2 where two: "score_lines ?s1 1 ''tspin'' = Inr s2" "score s2 - score ?s1 = 675"
    "back_to_back s2"
    by auto
  from first one two show ?thesis by blast
qed

section \<open>Locking\<close>

lemma lock_cells_above:
  assumes "sorted (map snd cs)" and "(cx, cy) \<in> set cs" and "cy < 0"
  shows "lock_cells g k cs = Inr (g, True)"
proof (cases cs)
  case Nil
  with assms show ?thesis by simp
next
  case (Cons c rest)
  obtain hx hy where c: "c = (hx, hy)" by (cases c)
  from assms Cons c have "hy \<le> cy" by auto
  with assms Cons c show ?thesis by simp
qed

text \<open>
  Claim C4. When a cell of the active piece lies in a row \<open>< 0\<close>, \<open>lock_piece\<close> sets the
  game-over flag, returns 0 and changes nothing else: the board is as it was (no cell is
  written, no line is cleared) and the piece, the queue and the score are untouched (no
  spawn, no scoring). The same holds at the two places of the game loop that lock: a
  gravity pass whose move down fails, and the end of a hard-drop animation (which has put
  the piece on its target row and afterwards resets the animation flag).
\<close>

theorem lock_above_board:
  assumes cur: "current s = Some p"
    and cs: "cells p = Inr cs"
    and above: "(cx, cy) \<in> set cs" "cy < 0"
  shows "lock_piece rnd s = Inr (rnd, s\<lparr>game_over := True\<rparr>, 0)
       \<and> (try_move s 0 1 = Inr (s, False) \<longrightarrow>
            gravity_tick held rnd s = Inr (rnd, s\<lparr>game_over := True\<rparr>))
       \<and> (\<forall>s0 p0. hard_drop_anim s0 \<and> current s0 = Some p0
              \<and> p = Piece (kind p0) (px p0) (hard_drop_target_y s0) (pr p0)
              \<and> s = s0\<lparr>current := Some p\<rparr> \<longrightarrow>
            hard_drop_step True rnd s0 = Inr (rnd, s\<lparr>game_over := True, hard_drop_anim := False\<rparr>))"
proof -
  have "lock_cells (grid s) (kind p) cs = Inr (grid s, True)"
    using lock_cells_above [OF cells_sorted [OF cs] above] .
  with cur cs have lock: "lock_piece rnd s = Inr (rnd, s\<lparr>game_over := True\<rparr>, 0)"
    by (simp add: lock_piece_def)
  have tick: "try_move s 0 1 = Inr (s, False) \<longrightarrow>
      gravity_tick held rnd s = Inr (rnd, s\<lparr>game_over := True\<rparr>)"
    using lock by (simp add: gravity_tick_def)
  have drop: "hard_drop_step True rnd s0 = Inr (rnd, s\<lparr>game_over := True, hard_drop_anim := False\<rparr>)"
    if "hard_drop_anim s0" "current s0 = Some p0"
      "p = Piece (kind p0) (px p0) (hard_drop_target_y s0) (pr p0)" "s = s0\<lparr>current := Some p\<rparr>"
    for s0 p0
    using that lock by (simp add: hard_drop_step_def)
  from lock tick drop show ?thesis by blast
qed

theorem lock_above_board_witness:
  "hard_drop_distance (drop_out_state\<lparr>hard_drop_anim := False\<rparr>) = Inr 1
   \<and> hard_drop_step True (\<lambda>_. 0) drop_out_state =
       Inr (\<lambda>_. 0, drop_out_state\<lparr>current := Some (Piece ''I'' 3 (-1) 1),
                                      game_over := True, hard_drop_anim := False\<rparr>)
   \<and> lock_piece (\<lambda>_. 0) (drop_out_state\<lparr>current := Some (Piece ''I'' 3 (-1) 1)\<rparr>) =
       Inr (\<lambda>_. 0, drop_out_state\<lparr>current := Some (Piece ''I'' 3 (-1) 1), game_over := True\<rparr>, 0)
   \<and> gravity_tick False (\<lambda>_. 0) (drop_out_state\<lparr>current := Some (Piece ''I'' 3 (-1) 1)\<rparr>) =
       Inr (\<lambda>_. 0, drop_out_state\<lparr>current := Some (Piece ''I'' 3 (-1) 1), game_over := True\<rparr>)"
proof -
  let ?p = "Piece ''I'' 3 (-1) 1"
  let ?s = "drop_out_state\<lparr>current := Some ?p\<rparr>"
  have dist: "hard_drop_distance (drop_out_state\<lparr>hard_drop_anim := False\<rparr>) = Inr 1"
    unfolding drop_out_state_def by code_simp
  have cur: "current ?s = Some ?p" by simp
  have cs: "cells ?p = Inr [(5, -1), (5, 0), (5, 1), (5, 2)]" by code_simp
  have blocked: "try_move ?s 0 1 = Inr (?s, False)"
    unfolding drop_out_state_def by code_simp
  have anim: "hard_drop_anim drop_out_state \<and> current drop_out_state = Some (Piece ''I'' 3 (-2) 1)
      \<and> hard_drop_target_y drop_out_state = -1"
    by (simp add: drop_out_state_def)
  have mem: "(5, -1) \<in> set [(5, -1), (5, 0), (5, 1), (5 :: int, 2 :: int)]" by simp
  have neg: "(-1 :: int) < 0" by simp
  note main = lock_above_board [OF cur cs mem neg, of "\<lambda>_. 0" False]
  note lock = main [THEN conjunct1]
  note tick = main [THEN conjunct2, THEN conjunct1, rule_format, OF blocked]
  note drop0 = main [THEN conjunct2, THEN conjunct2, rule_format,
      of drop_out_state "Piece ''I'' 3 (-2) 1"]
  have drop: "hard_drop_step True (\<lambda>_. 0) drop_out_state =
      Inr (\<lambda>_. 0, ?s\<lparr>game_over := True, hard_drop_anim := False\<rparr>)"
    by (rule drop0) (simp add: anim)
  from dist lock tick drop show ?thesis by simp
qed

section \<open>Collision on a well-formed board\<close>

lemma grid_get_inside:
  assumes "board_ok g" "0 \<le> cy" "cy < PLAY_ROWS" "0 \<le> cx" "cx < PLAY_COLS"
  shows "grid_get g cy cx = Inr (g ! nat cy ! nat cx)"
proof -
  from assms have row: "py_index g cy = Some (nat cy)" and "nat cy < length g"
    by (auto simp: board_ok_def py_index_def)
  then have "g ! nat cy \<in> set g" by simp
  with assms have "py_index (g ! nat cy) cx = Some (nat cx)"
    by (auto simp: board_ok_def py_index_def)
  with row show ?thesis by (simp add: grid_get_def py_getitem_def)
qed

lemma collides_cells_spec:
  assumes "board_ok g"
  shows "collides_cells g cs =
     Inr (\<exists>c \<in> set cs. fst c < 0 \<or> PLAY_COLS \<le> fst c \<or> PLAY_ROWS \<le> snd c
            \<or> (0 \<le> snd c \<and> g ! nat (snd c) ! nat (fst c) \<noteq> None))"
proof (induction cs)
  case Nil
  show ?case by simp
next
  case (Cons c cs)
  obtain cx cy where c: "c = (cx, cy)" by (cases c)
  show ?case
  proof (cases "cx < 0 \<or> PLAY_COLS \<le> cx \<or> PLAY_ROWS \<le> cy")
    case True
    then show ?thesis unfolding c by auto
  next
    case False
    show ?thesis
    proof (cases "0 \<le> cy")
      case True
      with False have "grid_get g cy cx = Inr (g ! nat cy ! nat cx)"
        using grid_get_inside [OF assms] by simp
      with False True Cons.IH show ?thesis unfolding c by auto
    next
      case neg: False
      with False Cons.IH show ?thesis unfolding c by auto
    qed
  qed
qed

lemma collides_total:
  assumes "board_ok (grid s)" "known_kind (kind p)"
  shows "\<exists>b. collides s p = Inr b"
proof -
  from cells_known [OF assms(2)] obtain cs where "cells p = Inr cs" ..
  then show ?thesis
    by (simp add: collides_def collides_cells_spec [OF assms(1)])
qed

lemma corner_occupied_total:
  assumes "board_ok g"
  shows "\<exists>b. corner_occupied g c = Inr b"
proof (cases c)
  case (Pair cx cy)
  show ?thesis
  proof (cases "cy < 0 \<or> cx < 0 \<or> cx \<ge> PLAY_COLS \<or> cy \<ge> PLAY_ROWS")
    case True
    with Pair show ?thesis by (auto simp: corner_occupied_def)
  next
    case False
    with grid_get_inside [OF assms, of cy cx] Pair show ?thesis
      by (simp add: corner_occupied_def)
  qed
qed

lemma count_occupied_total:
  assumes "board_ok g"
  shows "\<exists>n. count_occupied g cs k = Inr n"
proof (induction cs arbitrary: k)
  case Nil
  show ?case by simp
next
  case (Cons c cs)
  from corner_occupied_total [OF assms, of c] obtain b where "corner_occupied g c = Inr b" ..
  with Cons show ?case by simp
qed

lemma is_t_spin_total:
  assumes "board_ok (grid s)"
  shows "\<exists>t. is_t_spin s p kicked = Inr t"
proof -
  from count_occupied_total [OF assms, of "corners p" 0]
  obtain n where "count_occupied (grid s) (corners p) 0 = Inr n" ..
  then show ?thesis by (simp add: is_t_spin_def)
qed

lemma try_kicks_blocked:
  assumes "\<forall>k \<in> set ks. collides s (Piece (kind cur) (px cur + fst k) (py cur + snd k) to_r) = Inr True"
  shows "try_kicks s cur to_r ks = Inr (s, False, ''none'')"
  using assms by (induction ks) (auto simp: Let_def)

lemma try_kicks_first:
  assumes "i < length ks"
    and "collides s (Piece (kind cur) (px cur + fst (ks ! i)) (py cur + snd (ks ! i)) to_r) = Inr False"
    and "\<forall>j < i. collides s (Piece (kind cur) (px cur + fst (ks ! j)) (py cur + snd (ks ! j)) to_r) = Inr True"
  shows "try_kicks s cur to_r ks =
     (let cand = Piece (kind cur) (px cur + fst (ks ! i)) (py cur + snd (ks ! i)) to_r;
          s1 = s\<lparr>current := Some cand\<rparr>
      in case is_t_spin s1 cand (fst (ks ! i) \<noteq> 0 \<or> snd (ks ! i) \<noteq> 0) of
           Inl e \<Rightarrow> Inl e
         | Inr t \<Rightarrow> Inr (s1, True, t))"
  using assms
proof (induction ks arbitrary: i)
  case Nil
  then show ?case by simp
next
  case (Cons k ks)
  obtain dx dy where k: "k = (dx, dy)" by (cases k)
  show ?case
  proof (cases i)
    case 0
    with Cons.prems k show ?thesis by (simp add: Let_def)
  next
    case (Suc m)
    from Cons.prems(3) Suc have first: "collides s (Piece (kind cur) (px cur + dx) (py cur + dy) to_r) = Inr True"
      using k by (auto dest: spec [of _ 0])
    have rest: "\<forall>j < m. collides s (Piece (kind cur) (px cur + fst (ks ! j)) (py cur + snd (ks ! j)) to_r) = Inr True"
      using Cons.prems(3) Suc by (auto dest: spec [of _ "Suc j" for j])
    from Cons.IH [of m] Cons.prems(1,2) Suc rest first k
    show ?thesis by (simp add: Let_def)
  qed
qed

section \<open>Rotation\<close>

lemma kicks_for_table:
  "kicks_for (if k = ''I'' then ''I'' else ''JLTSZ'') from_r to_r =
     (case map_of (if k = ''I'' then KICKS_I else KICKS_JLTSZ) (from_r, to_r) of
        None \<Rightarrow> [(0, 0)] | Some l \<Rightarrow> l)"
  by (simp add: kicks_for_def KICKS_def)

lemma board_ok_default: "board_ok (grid GameState_default)"
  by (simp add: board_ok_def GameState_default_def PLAY_ROWS_def PLAY_COLS_def)

text \<open>
  Claim C5. On a well-formed board with an active piece of a known kind, \<open>try_rotate\<close>
  takes the target rotation \<open>(r + dr) mod n\<close>, \<open>n\<close> the rotation count of the kind, and
  the kick list of the pair (from, to) in the table of the kind's family (the single zero
  offset when the pair is not listed). Every candidate has a collision answer. When all
  collide, the rotation fails and the state is unchanged. When candidate \<open>i\<close> is free and
  all before it collide, exactly that candidate becomes the active piece and the
  rotation succeeds, with the T-spin flag of that pose.
\<close>

theorem try_rotate_first_fit:
  assumes board: "board_ok (grid s)"
    and cur: "current s = Some cur"
    and count: "map_of ROTATIONS (kind cur) = Some n"
    and to_r: "to_r = (pr cur + dr) mod int n"
    and ks: "ks = (case map_of (if kind cur = ''I'' then KICKS_I else KICKS_JLTSZ)
                          (pr cur mod int n, to_r) of
                     None \<Rightarrow> [(0, 0)] | Some l \<Rightarrow> l)"
  shows "(\<forall>k \<in> set ks. \<exists>b. collides s (Piece (kind cur) (px cur + fst k) (py cur + snd k) to_r) = Inr b)
       \<and> ((\<forall>k \<in> set ks. collides s (Piece (kind cur) (px cur + fst k) (py cur + snd k) to_r) = Inr True)
            \<longrightarrow> try_rotate s dr = Inr (s, False, ''none''))
       \<and> (\<forall>i < length ks.
              collides s (Piece (kind cur) (px cur + fst (ks ! i)) (py cur + snd (ks ! i)) to_r) = Inr False
              \<and> (\<forall>j < i. collides s (Piece (kind cur) (px cur + fst (ks ! j)) (py cur + snd (ks ! j)) to_r) = Inr True)
            \<longrightarrow> (\<exists>t. is_t_spin (s\<lparr>current := Some (Piece (kind cur) (px cur + fst (ks ! i)) (py cur + snd (ks ! i)) to_r)\<rparr>)
                         (Piece (kind cur) (px cur + fst (ks ! i)) (py cur + snd (ks ! i)) to_r)
                         (ks ! i \<noteq> (0, 0)) = Inr t
                    \<and> try_rotate s dr =
                        Inr (s\<lparr>current := Some (Piece (kind cur) (px cur + fst (ks ! i)) (py cur + snd (ks ! i)) to_r)\<rparr>,
                             True, t)))"
proof -
  from count have known: "known_kind (kind cur)"
    by (auto simp: known_kind_iff ROTATIONS_def split: if_splits)
  then obtain rots where rots: "map_of ROTATED (kind cur) = Some rots"
    using map_of_ROTATED_known [of "kind cur"] by auto
  from rotation_count [OF rots] count have n: "n = length rots" and ne: "rots \<noteq> []"
    by simp_all
  have run: "try_rotate s dr = try_kicks s cur to_r ks"
    using cur rots ne by (simp add: try_rotate_def Let_def kicks_for_table n to_r ks)
  have total: "\<exists>b. collides s (Piece (kind cur) (px cur + fst k) (py cur + snd k) to_r) = Inr b" for k
    by (rule collides_total [OF board]) (simp add: known)
  have blocked: "try_rotate s dr = Inr (s, False, ''none'')"
    if "\<forall>k \<in> set ks. collides s (Piece (kind cur) (px cur + fst k) (py cur + snd k) to_r) = Inr True"
    using try_kicks_blocked [OF that] run by simp
  have fits: "\<exists>t. is_t_spin (s\<lparr>current := Some (Piece (kind cur) (px cur + fst (ks ! i)) (py cur + snd (ks ! i)) to_r)\<rparr>)
                         (Piece (kind cur) (px cur + fst (ks ! i)) (py cur + snd (ks ! i)) to_r)
                         (ks ! i \<noteq> (0, 0)) = Inr t
                    \<and> try_rotate s dr =
                        Inr (s\<lparr>current := Some (Piece (kind cur) (px cur + fst (ks ! i)) (py cur + snd (ks ! i)) to_r)\<rparr>,
                             True, t)"
    if i: "i < length ks"
      and free: "collides s (Piece (kind cur) (px cur + fst (ks ! i)) (py cur + snd (ks ! i)) to_r) = Inr False"
      and before: "\<forall>j < i. collides s (Piece (kind cur) (px cur + fst (ks ! j)) (py cur + snd (ks ! j)) to_r) = Inr True"
    for i
  proof -
    let ?c = "Piece (kind cur) (px cur + fst (ks ! i)) (py cur + snd (ks ! i)) to_r"
    have kicked: "(fst (ks ! i) \<noteq> 0 \<or> snd (ks ! i) \<noteq> 0) = (ks ! i \<noteq> (0, 0))"
      by (cases "ks ! i") simp
    from board have "board_ok (grid (s\<lparr>current := Some ?c\<rparr>))" by simp
    from is_t_spin_total [OF this, of ?c "ks ! i \<noteq> (0, 0)"]
    obtain t where t: "is_t_spin (s\<lparr>current := Some ?c\<rparr>) ?c (ks ! i \<noteq> (0, 0)) = Inr t" ..
    from try_kicks_first [OF i free before] t run kicked
    have "try_rotate s dr = Inr (s\<lparr>current := Some ?c\<rparr>, True, t)"
      by (simp add: Let_def)
    with t show ?thesis by blast
  qed
  from total blocked fits show ?thesis by blast
qed

theorem try_rotate_first_fit_witness:
  "collides wall_kick_state (Piece ''T'' (-1) 5 2) = Inr True
   \<and> collides wall_kick_state (Piece ''T'' 0 5 2) = Inr False
   \<and> try_rotate wall_kick_state 1 =
       Inr (wall_kick_state\<lparr>current := Some (Piece ''T'' 0 5 2)\<rparr>, True, ''none'')"
proof -
  let ?ks = "[(0, 0), (1, 0), (1, -1), (0, 2), (1, 2)] :: (int \<times> int) list"
  have board: "board_ok (grid wall_kick_state)"
    using board_ok_default by (simp add: wall_kick_state_def)
  have cur: "current wall_kick_state = Some (Piece ''T'' (-1) 5 1)"
    by (simp add: wall_kick_state_def)
  have count: "map_of ROTATIONS (kind (Piece ''T'' (-1) 5 1)) = Some 4"
    by (simp add: ROTATIONS_def)
  have to_r: "(2 :: int) = (pr (Piece ''T'' (-1) 5 1) + 1) mod int 4" by simp
  have ks: "?ks = (case map_of (if kind (Piece ''T'' (-1) 5 1) = ''I'' then KICKS_I else KICKS_JLTSZ)
                          (pr (Piece ''T'' (-1) 5 1) mod int 4, 2) of
                     None \<Rightarrow> [(0, 0)] | Some l \<Rightarrow> l)"
    by (simp add: KICKS_JLTSZ_def)
  have first: "collides wall_kick_state (Piece ''T'' (-1) 5 2) = Inr True"
    unfolding wall_kick_state_def by code_simp
  have second: "collides wall_kick_state (Piece ''T'' 0 5 2) = Inr False"
    unfolding wall_kick_state_def by code_simp
  have flag: "is_t_spin (wall_kick_state\<lparr>current := Some (Piece ''T'' 0 5 2)\<rparr>) (Piece ''T'' 0 5 2) True = Inr ''none''"
    unfolding wall_kick_state_def by code_simp
  note main = try_rotate_first_fit [OF board cur count to_r ks]
  from main [THEN conjunct2, THEN conjunct2, rule_format, of 1] first second flag
  have "try_rotate wall_kick_state 1 =
       Inr (wall_kick_state\<lparr>current := Some (Piece ''T'' 0 5 2)\<rparr>, True, ''none'')"
    by simp
  with first second show ?thesis by simp
qed

section \<open>Hard drop\<close>

lemma hard_drop_loop_spec:
  assumes "board_ok (grid s)" "known_kind (kind p)"
  shows "\<exists>d. hard_drop_loop s p dist = Inr d \<and> dist \<le> d
           \<and> (\<forall>k. dist < k \<and> k \<le> d \<longrightarrow> collides s (Piece (kind p) (px p) (py p + k) (pr p)) = Inr False)
           \<and> collides s (Piece (kind p) (px p) (py p + d + 1) (pr p)) = Inr True"
  using assms
proof (induction s p dist rule: hard_drop_loop.induct)
  case (1 state p dist)
  from collides_total [OF "1.prems"(1), of "Piece (kind p) (px p) (py p + dist + 1) (pr p)"] "1.prems"(2)
  obtain hit where hit: "collides state (Piece (kind p) (px p) (py p + dist + 1) (pr p)) = Inr hit"
    by auto
  show ?case
  proof (cases hit)
    case True
    with hit have "hard_drop_loop state p dist = Inr dist" by simp
    with hit True show ?thesis by auto
  next
    case False
    from "1.IH" [OF hit False "1.prems"]
    obtain d where d: "hard_drop_loop state p (dist + 1) = Inr d" "dist + 1 \<le> d"
      "\<forall>k. dist + 1 < k \<and> k \<le> d \<longrightarrow> collides state (Piece (kind p) (px p) (py p + k) (pr p)) = Inr False"
      "collides state (Piece (kind p) (px p) (py p + d + 1) (pr p)) = Inr True"
      by blast
    from hit False have step: "hard_drop_loop state p dist = hard_drop_loop state p (dist + 1)"
      by simp
    have "collides state (Piece (kind p) (px p) (py p + k) (pr p)) = Inr False"
      if "dist < k" "k \<le> d" for k
    proof (cases "k = dist + 1")
      case True
      with hit False show ?thesis by (simp add: add.assoc)
    next
      case neq: False
      with that d(3) show ?thesis by simp
    qed
    with d step show ?thesis by auto
  qed
qed

text \<open>
  Claim C10, amended. On a well-formed board with an active piece of a known kind,
  \<open>hard_drop_distance\<close> returns a distance \<open>d \<ge> 0\<close> (its loop terminates: the function
  is total, see the termination proof of \<open>hard_drop_loop\<close>) such that the piece moved
  down by each of \<open>1, ..., d\<close> rows does not collide and moved down by \<open>d + 1\<close> rows
  collides: the distance to the first obstacle below. It is at most
  \<open>max 0 (PLAY_ROWS - 1 - y)\<close> for a piece at row \<open>y\<close>, hence at most the row count plus
  the frame height 4 when \<open>y \<ge> -5\<close>.
\<close>

theorem hard_drop_distance_first_obstacle:
  assumes board: "board_ok (grid s)"
    and cur: "current s = Some p"
    and known: "known_kind (kind p)"
  shows "\<exists>d. hard_drop_distance s = Inr d \<and> 0 \<le> d
           \<and> (\<forall>k. 1 \<le> k \<and> k \<le> d \<longrightarrow> collides s (Piece (kind p) (px p) (py p + k) (pr p)) = Inr False)
           \<and> collides s (Piece (kind p) (px p) (py p + d + 1) (pr p)) = Inr True
           \<and> d \<le> max 0 (PLAY_ROWS - 1 - py p)
           \<and> (- 5 \<le> py p \<longrightarrow> d \<le> PLAY_ROWS + 4)"
proof -
  from hard_drop_loop_spec [OF board known, of 0]
  obtain d where d: "hard_drop_loop s p 0 = Inr d" "0 \<le> d"
    "\<forall>k. 0 < k \<and> k \<le> d \<longrightarrow> collides s (Piece (kind p) (px p) (py p + k) (pr p)) = Inr False"
    "collides s (Piece (kind p) (px p) (py p + d + 1) (pr p)) = Inr True"
    by blast
  have bound: "d \<le> max 0 (PLAY_ROWS - 1 - py p)"
  proof (cases "d = 0")
    case True
    then show ?thesis by simp
  next
    case False
    with d(2,3) have "collides s (Piece (kind p) (px p) (py p + d) (pr p)) = Inr False" by simp
    from collides_free_row [OF this] show ?thesis by simp
  qed
  then have "- 5 \<le> py p \<longrightarrow> d \<le> PLAY_ROWS + 4"
    by (auto simp: PLAY_ROWS_def)
  with d bound cur show ?thesis
    by (auto simp: hard_drop_distance_def)
qed

text \<open>
  The claim as stated fails: below an overhang the piece stops after 4 rows although 7
  rows further down it would not collide, so the result is not the largest free
  translation; and from row \<open>-30\<close> the distance is 47, more than the row count plus 4.
\<close>

theorem hard_drop_distance_counterexample:
  "hard_drop_distance overhang_state = Inr 4
   \<and> collides overhang_state (Piece ''O'' 3 (-2 + 7) 0) = Inr False
   \<and> hard_drop_distance high_state = Inr 47
   \<and> PLAY_ROWS + 4 = 24"
  unfolding overhang_state_def high_state_def by code_simp

theorem hard_drop_distance_witness:
  "hard_drop_distance overhang_state = Inr 4
   \<and> collides overhang_state (Piece ''O'' 3 (-1) 0) = Inr False
   \<and> collides overhang_state (Piece ''O'' 3 2 0) = Inr False
   \<and> collides overhang_state (Piece ''O'' 3 3 0) = Inr True"
proof -
  have board: "board_ok (grid overhang_state)"
    by (simp add: overhang_state_def board_ok_def PLAY_ROWS_def PLAY_COLS_def)
  have cur: "current overhang_state = Some (Piece ''O'' 3 (-2) 0)"
    by (simp add: overhang_state_def)
  have known: "known_kind (kind (Piece ''O'' 3 (-2) 0))"
    by (simp add: known_kind_iff)
  have val: "hard_drop_distance overhang_state = Inr 4"
    unfolding overhang_state_def by code_simp
  from hard_drop_distance_first_obstacle [OF board cur known] val
  have "(\<forall>k. 1 \<le> k \<and> k \<le> 4 \<longrightarrow> collides overhang_state (Piece ''O'' 3 (-2 + k) 0) = Inr False)
      \<and> collides overhang_state (Piece ''O'' 3 (-2 + 4 + 1) 0) = Inr True"
    by auto
  then have every: "\<forall>k. 1 \<le> k \<and> k \<le> 4 \<longrightarrow> collides overhang_state (Piece ''O'' 3 (-2 + k) 0) = Inr False"
    and stop: "collides overhang_state (Piece ''O'' 3 (-2 + 4 + 1) 0) = Inr True"
    by blast+
  from every [rule_format, of 1] every [rule_format, of 4] stop
  have "collides overhang_state (Piece ''O'' 3 (-1) 0) = Inr False
      \<and> collides overhang_state (Piece ''O'' 3 2 0) = Inr False
      \<and> collides overhang_state (Piece ''O'' 3 3 0) = Inr True"
    by simp
  with val show ?thesis by simp
qed

section \<open>Bag and spawn\<close>

lemma shuffle_down_props:
  "m < length xs \<Longrightarrow> length (shuffle_down m rnd xs) = length xs \<and> set (shuffle_down m rnd xs) = set xs"
proof (induction m arbitrary: rnd xs)
  case 0
  show ?case by simp
next
  case (Suc m)
  let ?j = "rnd 0 mod (Suc m + 1)"
  have "?j < Suc m + 1" by simp
  with Suc.prems have j: "?j < length xs" by linarith
  let ?ys = "xs[Suc m := xs ! ?j, ?j := xs ! Suc m]"
  have "set ?ys = set xs" using Suc.prems j by (simp add: set_swap)
  moreover have "length ?ys = length xs" by simp
  moreover have "m < length ?ys" using Suc.prems by simp
  ultimately show ?case
    using Suc.IH [of ?ys "skip_draws 1 rnd"] by (simp add: Let_def)
qed

lemma shuffle_props: "length (shuffle rnd xs) = length xs \<and> set (shuffle rnd xs) = set xs"
proof (cases xs)
  case Nil
  then show ?thesis by (simp add: shuffle_def)
next
  case (Cons x rest)
  then have "length xs - 1 < length xs" by simp
  from shuffle_down_props [OF this] show ?thesis by (simp add: shuffle_def)
qed


lemma shuffle_keys_nonempty: "shuffle rnd (map fst SHAPES) \<noteq> []"
proof -
  have "length (shuffle rnd (map fst SHAPES)) = 7"
    using shuffle_props [of rnd "map fst SHAPES"] by (simp add: SHAPES_def)
  then show ?thesis by auto
qed

lemma fill_queue_spec:
  "\<exists>rnd1 b q. fill_queue rnd s = Inr (rnd1, s\<lparr>bag := b, next_queue := q\<rparr>)
      \<and> 5 \<le> length q
      \<and> hd q = hd (next_queue s @ bag s @ shuffle rnd (map fst SHAPES))
      \<and> set q \<subseteq> set (next_queue s) \<union> set (bag s) \<union> set (map fst SHAPES)"
proof (induction rnd s rule: fill_queue.induct)
  case (1 rnd state)
  show ?case
  proof (cases "length (next_queue state) < 5")
    case False
    then have "fill_queue rnd state = Inr (rnd, state\<lparr>bag := bag state, next_queue := next_queue state\<rparr>)"
      by simp
    moreover from False have "next_queue state \<noteq> []" by auto
    ultimately show ?thesis using False by fastforce
  next
    case True
    define b1 where "b1 = (if bag state = [] then shuffle rnd (map fst SHAPES) else bag state)"
    define rnd1 where "rnd1 = (if bag state = [] then skip_draws (length (map fst SHAPES) - 1) rnd else rnd)"
    define s1 where "s1 = state\<lparr>bag := b1\<rparr>"
    have pick: "(rnd1, s1) = (if bag state = [] then refill_bag rnd state else (rnd, state))"
      by (simp add: b1_def rnd1_def s1_def refill_bag_def Let_def)
    from shuffle_keys_nonempty [of rnd] have "b1 \<noteq> []" by (simp add: b1_def)
    then obtain k rest where kr: "b1 = k # rest" by (cases b1) auto
    then have kr': "bag s1 = k # rest" by (simp add: s1_def)
    let ?s2 = "s1\<lparr>bag := rest, next_queue := next_queue s1 @ [k]\<rparr>"
    from "1.IH" [OF True pick kr']
    obtain rnd3 b3 q3 where res: "fill_queue rnd1 ?s2 = Inr (rnd3, ?s2\<lparr>bag := b3, next_queue := q3\<rparr>)"
      and len: "5 \<le> length q3"
      and front: "hd q3 = hd (next_queue ?s2 @ bag ?s2 @ shuffle rnd1 (map fst SHAPES))"
      and sub: "set q3 \<subseteq> set (next_queue ?s2) \<union> set (bag ?s2) \<union> set (map fst SHAPES)"
      by blast
    have step: "fill_queue rnd state = fill_queue rnd1 ?s2"
      using True pick [symmetric] kr' by (subst fill_queue.simps) simp
    have same: "?s2\<lparr>bag := b3, next_queue := q3\<rparr> = state\<lparr>bag := b3, next_queue := q3\<rparr>"
      by (simp add: s1_def)
    have front': "hd q3 = hd (next_queue state @ bag state @ shuffle rnd (map fst SHAPES))"
    proof (cases "bag state = []")
      case True
      with kr have "shuffle rnd (map fst SHAPES) = k # rest" by (simp add: b1_def)
      with True front show ?thesis by (cases "next_queue state") (simp_all add: s1_def)
    next
      case False
      with kr have "bag state = k # rest" by (simp add: b1_def)
      with front show ?thesis by (cases "next_queue state") (simp_all add: s1_def)
    qed
    have "set b1 \<subseteq> set (bag state) \<union> set (map fst SHAPES)"
      using shuffle_props [of rnd "map fst SHAPES"] by (auto simp: b1_def)
    with sub kr have sub': "set q3 \<subseteq> set (next_queue state) \<union> set (bag state) \<union> set (map fst SHAPES)"
      by (auto simp: s1_def)
    from step res same len front' sub' show ?thesis by auto
  qed
qed


lemma collides_grid_only: "grid s' = grid s \<Longrightarrow> collides s' p = collides s p"
  by (simp add: collides_def split: sum.splits)

lemma spawn_next_spec:
  assumes board: "board_ok (grid s)"
    and kinds: "\<forall>k \<in> set (next_queue s) \<union> set (bag s). known_kind k"
  shows "\<exists>rnd1 b q k hit.
           k = hd (next_queue s @ bag s @ shuffle rnd (map fst SHAPES))
         \<and> spawn_x k = 3
         \<and> collides s (Piece k (spawn_x k) (-2) 0) = Inr hit
         \<and> spawn_next rnd s =
             Inr (rnd1, s\<lparr>bag := b, next_queue := q, game_over := game_over s \<or> hit,
                          current := Some (Piece k (spawn_x k) (-2) 0)\<rparr>)"
proof -
  from fill_queue_spec [of rnd s]
  obtain rnd1 b q0 where fill: "fill_queue rnd s = Inr (rnd1, s\<lparr>bag := b, next_queue := q0\<rparr>)"
    and len: "5 \<le> length q0"
    and front: "hd q0 = hd (next_queue s @ bag s @ shuffle rnd (map fst SHAPES))"
    and sub: "set q0 \<subseteq> set (next_queue s) \<union> set (bag s) \<union> set (map fst SHAPES)"
    by blast
  from len obtain k q where q0: "q0 = k # q" by (cases q0) auto
  with sub kinds have known: "known_kind k" by (auto simp: known_kind_def)
  let ?piece = "Piece k (spawn_x k) (-2) 0"
  from collides_total [OF board, of ?piece] known
  obtain hit where hit: "collides s ?piece = Inr hit" by auto
  have hit': "collides (s\<lparr>bag := b, next_queue := q\<rparr>) ?piece = Inr hit"
    using hit collides_grid_only [of "s\<lparr>bag := b, next_queue := q\<rparr>" s ?piece] by simp
  have filled: "fill_queue rnd s = Inr (rnd1, s\<lparr>bag := b, next_queue := k # q\<rparr>)"
    using fill q0 by simp
  have run: "spawn_next rnd s =
      Inr (rnd1, s\<lparr>bag := b, next_queue := q, game_over := game_over s \<or> hit, current := Some ?piece\<rparr>)"
    unfolding spawn_next_def filled
    using hit' by (cases hit) (simp_all add: Let_def)
  have col: "spawn_x k = 3" by (simp add: spawn_x_def)
  have k: "k = hd (next_queue s @ bag s @ shuffle rnd (map fst SHAPES))"
    using front q0 by simp
  from k col hit run show ?thesis by blast
qed

text \<open>
  Claim C6, amended. On a well-formed board, with known kinds in the queue and the bag,
  \<open>spawn_next\<close> succeeds: it takes the kind at the front of the queue (topped up from
  the bag, which is refilled by a shuffle when empty), constructs the piece at the
  kind's spawn column (3 for every kind), row \<open>-2\<close>, rotation 0, and installs it as the
  active piece whether or not it collides; the game-over flag is set when it collides
  and keeps its value otherwise. Only the bag, the queue, the flag and the active piece
  change.
\<close>

theorem spawn_next_installs:
  assumes board: "board_ok (grid s)"
    and kinds: "\<forall>k \<in> set (next_queue s) \<union> set (bag s). known_kind k"
  shows "\<exists>rnd1 b q k hit.
           k = hd (next_queue s @ bag s @ shuffle rnd (map fst SHAPES))
         \<and> spawn_x k = 3
         \<and> collides s (Piece k (spawn_x k) (-2) 0) = Inr hit
         \<and> spawn_next rnd s =
             Inr (rnd1, s\<lparr>bag := b, next_queue := q, game_over := game_over s \<or> hit,
                          current := Some (Piece k (spawn_x k) (-2) 0)\<rparr>)"
  using board kinds by (rule spawn_next_spec)

text \<open>
  The claim as stated fails: a T piece whose spawn position collides is the active piece
  of the state after \<open>spawn_next\<close>, next to the game-over flag.
\<close>

theorem spawn_next_counterexample:
  "collides blocked_spawn_state (Piece ''T'' 3 (-2) 0) = Inr True
   \<and> map_sum id (\<lambda>(rnd1, s1). (game_over s1, current s1)) (spawn_next (\<lambda>_. 0) blocked_spawn_state)
       = Inr (True, Some (Piece ''T'' 3 (-2) 0))"
proof -
  have fill: "fill_queue (\<lambda>_. 0) blocked_spawn_state = Inr (\<lambda>_. 0, blocked_spawn_state)"
    by (subst fill_queue.simps) (simp add: blocked_spawn_state_def)
  have queue: "next_queue blocked_spawn_state = [''T'', ''O'', ''S'', ''Z'', ''J'', ''L'']"
    by (simp add: blocked_spawn_state_def)
  have hit: "collides blocked_spawn_state (Piece ''T'' 3 (-2) 0) = Inr True"
    unfolding blocked_spawn_state_def by code_simp
  have "collides (blocked_spawn_state\<lparr>next_queue := [''O'', ''S'', ''Z'', ''J'', ''L'']\<rparr>)
      (Piece ''T'' 3 (-2) 0) = Inr True"
    using hit collides_grid_only [of "blocked_spawn_state\<lparr>next_queue := [''O'', ''S'', ''Z'', ''J'', ''L'']\<rparr>"
        blocked_spawn_state "Piece ''T'' 3 (-2) 0"] by simp
  with fill queue hit show ?thesis
    by (simp add: spawn_next_def spawn_x_def)
qed

theorem spawn_next_installs_witness:
  "\<exists>rnd1 b q. spawn_next (\<lambda>_. 0) blocked_spawn_state =
      Inr (rnd1, blocked_spawn_state\<lparr>bag := b, next_queue := q, game_over := True,
                                      current := Some (Piece ''T'' 3 (-2) 0)\<rparr>)"
proof -
  have board: "board_ok (grid blocked_spawn_state)"
    by (simp add: blocked_spawn_state_def board_ok_def PLAY_ROWS_def PLAY_COLS_def)
  have kinds: "\<forall>k \<in> set (next_queue blocked_spawn_state) \<union> set (bag blocked_spawn_state). known_kind k"
    by (simp add: blocked_spawn_state_def known_kind_iff GameState_default_def)
  have front: "hd (next_queue blocked_spawn_state @ bag blocked_spawn_state @ shuffle (\<lambda>_. 0) (map fst SHAPES)) = ''T''"
    by (simp add: blocked_spawn_state_def)
  have hit: "collides blocked_spawn_state (Piece ''T'' 3 (-2) 0) = Inr True"
    unfolding blocked_spawn_state_def by code_simp
  from spawn_next_installs [OF board kinds, of "\<lambda>_. 0"]
  obtain rnd1 b q k blocked where k: "k = hd (next_queue blocked_spawn_state @ bag blocked_spawn_state @ shuffle (\<lambda>_. 0) (map fst SHAPES))"
    and c: "collides blocked_spawn_state (Piece k (spawn_x k) (-2) 0) = Inr blocked"
    and run: "spawn_next (\<lambda>_. 0) blocked_spawn_state =
             Inr (rnd1, blocked_spawn_state\<lparr>bag := b, next_queue := q,
                     game_over := game_over blocked_spawn_state \<or> blocked,
                     current := Some (Piece k (spawn_x k) (-2) 0)\<rparr>)"
    by blast
  from k front have kT: "k = ''T''" by simp
  with c hit have "blocked" by (simp add: spawn_x_def)
  with run kT have "spawn_next (\<lambda>_. 0) blocked_spawn_state =
      Inr (rnd1, blocked_spawn_state\<lparr>bag := b, next_queue := q, game_over := True,
                                      current := Some (Piece ''T'' 3 (-2) 0)\<rparr>)"
    by (simp add: spawn_x_def)
  then show ?thesis by blast
qed

section \<open>Save and load round trip\<close>

lemma copy_cell: "(\<lambda>cell :: 'a option. if cell \<noteq> None then cell else None) = (\<lambda>cell. cell)"
  by (rule ext) simp

lemma from_dict_to_dict_eq:
  "from_dict (to_dict s) =
     (if gravity_overflows (level s) then Inl OverflowError
      else Inr (s\<lparr>paused := False, fall_interval := Gravity (level s),
                  hard_drop_anim := False, hard_drop_start_y := 0, hard_drop_target_y := 0\<rparr>))"
  unfolding from_dict_def to_dict_def copy_cell
  by (cases "current s")
     (simp_all add: current_from_def dict_get_def GameState_default_def gravity_for_level_def)

text \<open>
  Claim C9, amended. For every state whose level is in the range of the float
  computation of \<open>gravity_for_level\<close> (no overflow: by \<open>gravity_in_range\<close> every level
  above \<open>-6736\<close> and up to \<open>2 ^ 53\<close>), \<open>from_dict\<close> applied to \<open>to_dict\<close> of the state
  succeeds and gives a state with the same board, bag, queue, hold kind, can-hold flag,
  active piece, score, lines, level, combo, back-to-back flag and game-over flag;
  collision queries and the outcome of every move agree on the two states. For a level
  out of that range \<open>from_dict\<close> raises \<^verbatim>\<open>OverflowError\<close>.
\<close>

theorem from_dict_to_dict:
  "(gravity_overflows (level s) \<longrightarrow> from_dict (to_dict s) = Inl OverflowError)
   \<and> (\<not> gravity_overflows (level s) \<longrightarrow>
        (\<exists>s'. from_dict (to_dict s) = Inr s'
          \<and> grid s' = grid s \<and> bag s' = bag s \<and> next_queue s' = next_queue s
          \<and> hold s' = hold s \<and> can_hold s' = can_hold s \<and> current s' = current s
          \<and> score s' = score s \<and> lines s' = lines s \<and> level s' = level s
          \<and> combo s' = combo s \<and> back_to_back s' = back_to_back s
          \<and> game_over s' = game_over s
          \<and> (\<forall>p. collides s' p = collides s p)
          \<and> (\<forall>dx dy. map_sum id snd (try_move s' dx dy) = map_sum id snd (try_move s dx dy))))"
proof -
  let ?s' = "s\<lparr>paused := False, fall_interval := Gravity (level s),
            hard_drop_anim := False, hard_drop_start_y := 0, hard_drop_target_y := 0\<rparr>"
  have hit: "collides ?s' p = collides s p" for p
    by (simp add: collides_def split: sum.splits)
  have move: "map_sum id snd (try_move ?s' dx dy) = map_sum id snd (try_move s dx dy)" for dx dy
    by (cases "current s") (auto simp: try_move_def hit Let_def split: sum.splits)
  show ?thesis
    using from_dict_to_dict_eq [of s] hit move by auto
qed

text \<open>
  The claim as stated fails for a level out of the float range: with level \<open>-7000\<close>, and
  with level \<open>2 ^ 1024 + 1\<close>, \<open>from_dict\<close> raises on the dictionary of the state.
\<close>

theorem from_dict_to_dict_counterexample:
  "from_dict (to_dict (GameState_default\<lparr>level := - 7000\<rparr>)) = Inl OverflowError
   \<and> from_dict (to_dict (GameState_default\<lparr>level := 2 ^ 1024 + 1\<rparr>)) = Inl OverflowError"
proof -
  have low: "gravity_overflows (- 7000)"
    by (rule gravity_out_of_range) simp
  have high: "gravity_overflows (2 ^ 1024 + 1)"
    by (rule gravity_out_of_range) simp
  from low high show ?thesis
    by (simp add: from_dict_to_dict_eq)
qed

theorem from_dict_to_dict_witness:
  "from_dict (to_dict drop_out_state) =
     Inr (drop_out_state\<lparr>hard_drop_anim := False, hard_drop_start_y := 0, hard_drop_target_y := 0,
                           fall_interval := Gravity 1\<rparr>)
   \<and> from_dict (to_dict (GameState_default\<lparr>level := - 7000\<rparr>)) = Inl OverflowError"
proof -
  have lv: "level drop_out_state = 1" by (simp add: drop_out_state_def GameState_default_def)
  have ok: "\<not> gravity_overflows (level drop_out_state)"
    unfolding lv by (rule gravity_in_range) simp_all
  have low: "gravity_overflows (level (GameState_default\<lparr>level := - 7000\<rparr>))"
    by simp (rule gravity_out_of_range, simp)
  from from_dict_to_dict [of drop_out_state] ok
  obtain s' where s': "from_dict (to_dict drop_out_state) = Inr s'" by blast
  have "from_dict (to_dict drop_out_state) =
     Inr (drop_out_state\<lparr>hard_drop_anim := False, hard_drop_start_y := 0, hard_drop_target_y := 0,
                           fall_interval := Gravity 1\<rparr>)"
    using s' ok lv
    by (simp add: from_dict_to_dict_eq) (simp add: drop_out_state_def GameState_default_def)
  moreover from from_dict_to_dict [of "GameState_default\<lparr>level := - 7000\<rparr>"] low
  have "from_dict (to_dict (GameState_default\<lparr>level := - 7000\<rparr>)) = Inl OverflowError"
    by blast
  ultimately show ?thesis by blast
qed

section \<open>Game over\<close>

lemma try_move_flag: "try_move s dx dy = Inr (s', moved) \<Longrightarrow> game_over s' = game_over s"
  by (auto simp: try_move_def Let_def split: option.splits sum.splits if_splits)

lemma try_kicks_flag: "try_kicks s cur to_r ks = Inr (s', ok, t) \<Longrightarrow> game_over s' = game_over s"
  by (induction ks) (auto simp: Let_def split: sum.splits if_splits)

lemma try_rotate_flag: "try_rotate s dr = Inr (s', ok, t) \<Longrightarrow> game_over s' = game_over s"
  by (auto simp: try_rotate_def Let_def split: option.splits if_splits dest: try_kicks_flag)

lemma spawn_next_flag:
  assumes "spawn_next rnd s = Inr (rnd1, s')" and "game_over s"
  shows "game_over s'"
proof -
  from fill_queue_spec [of rnd s] obtain rnd2 b q
    where "fill_queue rnd s = Inr (rnd2, s\<lparr>bag := b, next_queue := q\<rparr>)" by blast
  with assms show ?thesis
    by (auto simp: spawn_next_def Let_def split: list.splits sum.splits if_splits)
qed

lemma hold_swap_flag:
  assumes "hold_swap rnd s = Inr (rnd1, s')" and "game_over s"
  shows "game_over s'"
  using assms
  by (auto simp: hold_swap_def Let_def split: option.splits sum.splits if_splits
      dest!: spawn_next_flag)


lemma spawn_free_on_empty:
  assumes known: "known_kind k" and empty: "grid s = grid GameState_default"
  shows "collides s (Piece k 3 (-2) 0) = Inr False"
proof -
  from cells_known [of "Piece k 3 (-2) 0"] known
  obtain cs where cs: "cells (Piece k 3 (-2) 0) = Inr cs" by auto
  have board: "board_ok (grid s)" using empty board_ok_default by simp
  have "\<not> (fst c < 0 \<or> PLAY_COLS \<le> fst c \<or> PLAY_ROWS \<le> snd c
            \<or> (0 \<le> snd c \<and> grid s ! nat (snd c) ! nat (fst c) \<noteq> None))"
    if c: "c \<in> set cs" for c
  proof -
    obtain cx cy where xy: "c = (cx, cy)" by (cases c)
    from cells_rows [OF cs, of cx cy] c xy
    have range: "3 \<le> cx" "cx \<le> 6" "cy \<le> 1" by simp_all
    then have "0 \<le> cy \<Longrightarrow> grid s ! nat cy ! nat cx = None"
      by (simp add: empty GameState_default_def PLAY_ROWS_def PLAY_COLS_def)
    with range xy show ?thesis by (auto simp: PLAY_ROWS_def PLAY_COLS_def)
  qed
  then show ?thesis
    using cs by (simp add: collides_def collides_cells_spec [OF board])
qed

lemma new_game_running:
  assumes range: "\<not> gravity_overflows lv"
  shows "\<exists>rnd1 s1. new_game rnd lv = Inr (rnd1, s1) \<and> \<not> game_over s1"
proof -
  let ?keys = "map fst SHAPES"
  let ?s0 = "GameState_default\<lparr>level := lv, fall_interval := Gravity lv,
      bag := shuffle rnd ?keys\<rparr>"
  have start: "new_game rnd lv = spawn_next (skip_draws (length ?keys - 1) rnd) ?s0"
    using range
    by (simp add: new_game_def gravity_for_level_def refill_bag_def Let_def GameState_default_def)
  have board: "board_ok (grid ?s0)" using board_ok_default by simp
  have kinds: "\<forall>k \<in> set (next_queue ?s0) \<union> set (bag ?s0). known_kind k"
    using shuffle_props [of rnd ?keys] by (simp add: known_kind_def GameState_default_def)
  from spawn_next_spec [OF board kinds, of "skip_draws (length ?keys - 1) rnd"]
  obtain rnd1 b q k hit where
    k: "k = hd (next_queue ?s0 @ bag ?s0 @ shuffle (skip_draws (length ?keys - 1) rnd) ?keys)"
    and hit: "collides ?s0 (Piece k (spawn_x k) (-2) 0) = Inr hit"
    and run: "spawn_next (skip_draws (length ?keys - 1) rnd) ?s0 =
      Inr (rnd1, ?s0\<lparr>bag := b, next_queue := q, game_over := game_over ?s0 \<or> hit,
                       current := Some (Piece k (spawn_x k) (-2) 0)\<rparr>)"
    by blast
  from shuffle_keys_nonempty [of rnd] have "k \<in> set (shuffle rnd ?keys)"
    unfolding k by (cases "shuffle rnd ?keys") (simp_all add: GameState_default_def)
  then have "known_kind k" using shuffle_props [of rnd ?keys] by (simp add: known_kind_def)
  from spawn_free_on_empty [OF this, of ?s0] hit have "\<not> hit"
    by (simp add: spawn_x_def)
  with run start show ?thesis by (simp add: GameState_default_def)
qed

text \<open>
  Claim C7, amended. The functions \<open>try_move\<close>, \<open>try_rotate\<close> and \<open>hold_swap\<close> do not
  read the game-over flag; the guards are in the game loop. For a state whose flag is
  set, the handler of a gameplay key event returns the state as it is, and so does a
  frame update that starts in that state. No call of the three operations clears the
  flag, and a fresh state from \<open>new_game\<close> (for a start level in the float range of
  \<open>gravity_for_level\<close>) has it clear. What the later gravity passes of a frame do once
  the flag is set in the middle of that frame is not part of this statement.
\<close>

theorem game_over_is_terminal:
  "(game_over s \<longrightarrow> keydown rnd s k = Inr (rnd, s, None) \<and> frame inp rnd s = Inr (rnd, s))
   \<and> (game_over s \<longrightarrow>
        (\<forall>s' moved. try_move s dx dy = Inr (s', moved) \<longrightarrow> game_over s')
      \<and> (\<forall>s' ok t. try_rotate s dr = Inr (s', ok, t) \<longrightarrow> game_over s')
      \<and> (\<forall>rnd1 s'. hold_swap rnd s = Inr (rnd1, s') \<longrightarrow> game_over s'))
   \<and> (\<not> gravity_overflows lv \<longrightarrow> (\<exists>rnd1 s1. new_game rnd lv = Inr (rnd1, s1) \<and> \<not> game_over s1))"
proof -
  have guard: "keydown rnd s k = Inr (rnd, s, None) \<and> frame inp rnd s = Inr (rnd, s)"
    if "game_over s"
    using that by (simp add: keydown_def frame_def)
  have kept: "(\<forall>s' moved. try_move s dx dy = Inr (s', moved) \<longrightarrow> game_over s')
      \<and> (\<forall>s' ok t. try_rotate s dr = Inr (s', ok, t) \<longrightarrow> game_over s')
      \<and> (\<forall>rnd1 s'. hold_swap rnd s = Inr (rnd1, s') \<longrightarrow> game_over s')"
    if "game_over s"
    using that try_move_flag [of s dx dy] try_rotate_flag [of s dr] hold_swap_flag [of rnd s]
    by auto
  from guard kept new_game_running [of lv rnd] show ?thesis by blast
qed

text \<open>
  The claim as stated fails for the operations themselves: called on a state whose flag
  is set, \<open>try_move\<close> and \<open>try_rotate\<close> replace the active piece and \<open>hold_swap\<close> fills
  the hold slot and spawns.
\<close>

theorem game_over_counterexample:
  "game_over over_state
   \<and> try_move over_state (-1) 0 = Inr (over_state\<lparr>current := Some (Piece ''T'' 2 (-2) 0)\<rparr>, True)
   \<and> try_rotate over_state 1 = Inr (over_state\<lparr>current := Some (Piece ''T'' 2 (-2) 1)\<rparr>, True, ''none'')
   \<and> map_sum id (\<lambda>(rnd1, s1). (hold s1, current s1, can_hold s1)) (hold_swap (\<lambda>_. 0) over_state)
       = Inr (Some ''T'', Some (Piece ''O'' 3 (-2) 0), False)"
proof -
  have flag: "game_over over_state" by (simp add: over_state_def)
  have move: "try_move over_state (-1) 0 = Inr (over_state\<lparr>current := Some (Piece ''T'' 2 (-2) 0)\<rparr>, True)"
    unfolding over_state_def by code_simp
  have turn: "try_rotate over_state 1 = Inr (over_state\<lparr>current := Some (Piece ''T'' 2 (-2) 1)\<rparr>, True, ''none'')"
    unfolding over_state_def by code_simp
  have swap: "map_sum id (\<lambda>(rnd1, s1). (hold s1, current s1, can_hold s1)) (hold_swap (\<lambda>_. 0) over_state)
       = Inr (Some ''T'', Some (Piece ''O'' 3 (-2) 0), False)"
    unfolding over_state_def by code_simp
  from flag move turn swap show ?thesis by blast
qed

theorem game_over_is_terminal_witness:
  "keydown (\<lambda>_. 0) over_state K_LEFT = Inr (\<lambda>_. 0, over_state, None)
   \<and> frame \<lparr>finished = True, shift_dx = -1, shifts = 3, down = True, ticks = 2\<rparr> (\<lambda>_. 0) over_state
       = Inr (\<lambda>_. 0, over_state)
   \<and> game_over (over_state\<lparr>current := Some (Piece ''T'' 2 (-2) 0)\<rparr>)
   \<and> (\<exists>rnd1 s1. new_game (\<lambda>_. 0) 1 = Inr (rnd1, s1) \<and> \<not> game_over s1)"
proof -
  have flag: "game_over over_state" by (simp add: over_state_def)
  have range: "\<not> gravity_overflows 1" by (rule gravity_in_range) simp_all
  have move: "try_move over_state (-1) 0 = Inr (over_state\<lparr>current := Some (Piece ''T'' 2 (-2) 0)\<rparr>, True)"
    unfolding over_state_def by code_simp
  note main = game_over_is_terminal [of over_state "\<lambda>_. 0" K_LEFT
      "\<lparr>finished = True, shift_dx = -1, shifts = 3, down = True, ticks = 2\<rparr>" "-1" 0 1 1]
  from main flag have guard: "keydown (\<lambda>_. 0) over_state K_LEFT = Inr (\<lambda>_. 0, over_state, None)
      \<and> frame \<lparr>finished = True, shift_dx = -1, shifts = 3, down = True, ticks = 2\<rparr> (\<lambda>_. 0) over_state
          = Inr (\<lambda>_. 0, over_state)"
    by blast
  from main flag have "\<forall>s' moved. try_move over_state (-1) 0 = Inr (s', moved) \<longrightarrow> game_over s'"
    by blast
  with move have kept: "game_over (over_state\<lparr>current := Some (Piece ''T'' 2 (-2) 0)\<rparr>)" by blast
  from main range have "\<exists>rnd1 s1. new_game (\<lambda>_. 0) 1 = Inr (rnd1, s1) \<and> \<not> game_over s1"
    by blast
  with guard kept show ?thesis by blast
qed

section \<open>Loading a save file\<close>

lemma current_from_error:
  "current_from cur = Inl e \<longleftrightarrow> e = KeyError \<and> (\<exists>c. cur = Some c \<and> missing_key c)"
  by (cases cur) (auto simp: current_from_def missing_key_def split: option.splits)

lemma from_dict_error:
  "from_dict d = Inl e \<longleftrightarrow>
     (e = KeyError \<and> (\<exists>c. d_current d = Some (Some c) \<and> missing_key c))
     \<or> (e = OverflowError \<and> \<not> (\<exists>c. d_current d = Some (Some c) \<and> missing_key c)
          \<and> gravity_overflows (dict_get (d_level d) 1))"
proof (cases "current_from (dict_get (d_current d) None)")
  case (Inl e')
  then have "from_dict d = Inl e'" by (simp add: from_dict_def)
  moreover from Inl have "e' = KeyError \<and> (\<exists>c. d_current d = Some (Some c) \<and> missing_key c)"
    unfolding current_from_error by (cases "d_current d") (simp_all add: dict_get_def)
  ultimately show ?thesis by auto
next
  case (Inr cur)
  then have no_key: "\<not> (\<exists>c. d_current d = Some (Some c) \<and> missing_key c)"
    using current_from_error [of "dict_get (d_current d) None" KeyError]
    by (cases "d_current d") (auto simp: dict_get_def)
  from Inr have "from_dict d = Inl e \<longleftrightarrow> gravity_for_level (dict_get (d_level d) 1) = Inl e"
    by (simp add: from_dict_def Let_def split: sum.splits)
  with no_key show ?thesis by (auto simp: gravity_for_level_error)
qed

text \<open>
  Claim C8, amended. \<open>load_game\<close> returns no state exactly when the file is missing,
  cannot be read or parsed, or \<open>from_dict\<close> raises, which for an object with values of
  the right JSON types happens in two cases only: a non-empty \<^verbatim>\<open>current\<close> object lacks
  one of its four keys (\<^verbatim>\<open>KeyError\<close>), or the stored level is out of the float range of
  \<open>gravity_for_level\<close> (\<^verbatim>\<open>OverflowError\<close>). Nothing is validated: for a level in range,
  whatever board and whatever kind tag the file holds are the board and the active piece
  of the loaded state.
\<close>

theorem load_game_unvalidated:
  "(load_game f = None \<longleftrightarrow>
      f = NoFile \<or> f = Unreadable
      \<or> (\<exists>d. f = Parsed d
            \<and> ((\<exists>c. d_current d = Some (Some c) \<and> missing_key c)
                \<or> gravity_overflows (dict_get (d_level d) 1))))
   \<and> (\<forall>d g k x0 y0 r0.
        d_grid d = Some g
        \<and> d_current d = Some (Some \<lparr>c_kind = Some k, c_x = Some x0, c_y = Some y0, c_r = Some r0\<rparr>)
        \<and> \<not> gravity_overflows (dict_get (d_level d) 1)
        \<longrightarrow> (\<exists>s. load_game (Parsed d) = Some s \<and> grid s = g \<and> current s = Some (Piece k x0 y0 r0)))"
proof -
  have fails: "load_game f = None \<longleftrightarrow>
      f = NoFile \<or> f = Unreadable
      \<or> (\<exists>d. f = Parsed d
            \<and> ((\<exists>c. d_current d = Some (Some c) \<and> missing_key c)
                \<or> gravity_overflows (dict_get (d_level d) 1)))"
  proof (cases f)
    case (Parsed d)
    have "load_game (Parsed d) = None \<longleftrightarrow> (\<exists>e. from_dict d = Inl e)"
      by (cases "from_dict d") (simp_all add: load_game_def)
    with Parsed show ?thesis by (auto simp: from_dict_error)
  qed (simp_all add: load_game_def)
  have loads: "\<exists>s. load_game (Parsed d) = Some s \<and> grid s = g \<and> current s = Some (Piece k x0 y0 r0)"
    if "d_grid d = Some g"
      "d_current d = Some (Some \<lparr>c_kind = Some k, c_x = Some x0, c_y = Some y0, c_r = Some r0\<rparr>)"
      "\<not> gravity_overflows (dict_get (d_level d) 1)"
    for d g k x0 y0 r0
    using that unfolding load_game_def from_dict_def copy_cell
    by (simp add: current_from_def dict_get_def Let_def gravity_for_level_def)
  from fails loads show ?thesis by blast
qed

text \<open>
  The claim as stated fails: a file with a 1x1 board and the kind tag \<^verbatim>\<open>Q\<close> loads, and
  the loaded state has that board and that piece.
\<close>

theorem load_game_counterexample:
  "load_game (Parsed bad_save) =
     Some (GameState_default\<lparr>grid := [[Some ''Q'']], current := Some (Piece ''Q'' 0 0 7),
                             level := 0, fall_interval := Gravity 0\<rparr>)
   \<and> \<not> board_ok [[Some ''Q'']]
   \<and> \<not> known_kind ''Q''"
proof -
  have "\<not> gravity_overflows 0" by (rule gravity_in_range) simp_all
  then show ?thesis
    by (simp add: load_game_def from_dict_def current_from_def dict_get_def bad_save_def
        empty_save_def GameState_default_def board_ok_def known_kind_iff PLAY_ROWS_def
        gravity_for_level_def)
qed

theorem load_game_unvalidated_witness:
  "load_game (Parsed partial_save) = None
   \<and> load_game (Parsed low_level_save) = None
   \<and> (\<exists>s. load_game (Parsed bad_save) = Some s \<and> grid s = [[Some ''Q'']]
          \<and> current s = Some (Piece ''Q'' 0 0 7))"
proof -
  have partial: "d_current partial_save =
      Some (Some \<lparr>c_kind = Some ''T'', c_x = None, c_y = None, c_r = None\<rparr>)
      \<and> missing_key \<lparr>c_kind = Some ''T'', c_x = None, c_y = None, c_r = None\<rparr>"
    by (simp add: partial_save_def missing_key_def)
  have "gravity_overflows (- 7000)" by (rule gravity_out_of_range) simp
  then have low: "gravity_overflows (dict_get (d_level low_level_save) 1)"
    by (simp add: low_level_save_def dict_get_def)
  have "\<not> gravity_overflows 0" by (rule gravity_in_range) simp_all
  then have bad: "d_grid bad_save = Some [[Some ''Q'']]
      \<and> d_current bad_save = Some (Some \<lparr>c_kind = Some ''Q'', c_x = Some 0, c_y = Some 0, c_r = Some 7\<rparr>)
      \<and> \<not> gravity_overflows (dict_get (d_level bad_save) 1)"
    by (simp add: bad_save_def dict_get_def)
  from load_game_unvalidated [of "Parsed partial_save", THEN conjunct1] partial
  have none: "load_game (Parsed partial_save) = None"
    by blast
  from load_game_unvalidated [of "Parsed low_level_save", THEN conjunct1] low
  have none': "load_game (Parsed low_level_save) = None"
    by blast
  from load_game_unvalidated [of "Parsed bad_save", THEN conjunct2, rule_format, OF bad] none none'
  show ?thesis by blast
qed

section \<open>T-spin detection and the scoring of locks\<close>

text \<open>
  Claim C3, evaluated on the code. After a successful rotation of the T in the slot of
  \<open>tspin_setup_state\<close> (the candidate \<open>(-1, 0)\<close> fits), \<open>is_t_spin\<close> examines the cells
  \<open>(x, y)\<close>, \<open>(x + 2, y)\<close>, \<open>(x, y + 2)\<close>, \<open>(x + 2, y + 2)\<close> of the 4x4 frame, one of them
  a cell of the piece itself, and answers \<^verbatim>\<open>'none'\<close>, although three of the four diagonal
  neighbours of the centre are occupied. In \<open>lone_block_state\<close> it answers \<^verbatim>\<open>'tspin'\<close>
  with none of the four diagonal neighbours occupied. The examined cells are the
  diagonal neighbours of the centre in orientation 3 only.
\<close>

theorem is_t_spin_wrong_corners:
  "try_rotate tspin_setup_state 1 =
     Inr (tspin_setup_state\<lparr>current := Some (Piece ''T'' 3 17 0)\<rparr>, True, ''none'')
   \<and> corners (Piece ''T'' 3 17 0) = [(3, 17), (5, 17), (3, 19), (5, 19)]
   \<and> map_sum id (map_option spec_corners \<circ> spec_center) (cells (Piece ''T'' 3 17 0))
       = Inr (Some [(4, 17), (6, 17), (4, 19), (6, 19)])
   \<and> spec_is_t_spin tspin_setup_state (Piece ''T'' 3 17 0) = Inr ''tspin''
   \<and> try_rotate lone_block_state 1 =
     Inr (lone_block_state\<lparr>current := Some (Piece ''T'' (-1) 17 0)\<rparr>, True, ''tspin'')
   \<and> spec_is_t_spin lone_block_state (Piece ''T'' (-1) 17 0) = Inr ''none''"
proof -
  have a: "try_rotate tspin_setup_state 1 =
     Inr (tspin_setup_state\<lparr>current := Some (Piece ''T'' 3 17 0)\<rparr>, True, ''none'')"
    unfolding tspin_setup_state_def by code_simp
  have b: "corners (Piece ''T'' 3 17 0) = [(3, 17), (5, 17), (3, 19), (5, 19)]"
    by (simp add: corners_def)
  have c: "map_sum id (map_option spec_corners \<circ> spec_center) (cells (Piece ''T'' 3 17 0))
       = Inr (Some [(4, 17), (6, 17), (4, 19), (6, 19)])"
    by code_simp
  have d: "spec_is_t_spin tspin_setup_state (Piece ''T'' 3 17 0) = Inr ''tspin''"
    unfolding tspin_setup_state_def by code_simp
  have e: "try_rotate lone_block_state 1 =
     Inr (lone_block_state\<lparr>current := Some (Piece ''T'' (-1) 17 0)\<rparr>, True, ''tspin'')"
    unfolding lone_block_state_def by code_simp
  have f: "spec_is_t_spin lone_block_state (Piece ''T'' (-1) 17 0) = Inr ''none''"
    unfolding lone_block_state_def by code_simp
  from a b c d e f show ?thesis by blast
qed

text \<open>
  Claim C1, evaluated on the code. A hard drop of the I piece of
  \<open>hard_drop_clear_state\<close> clears the bottom row, yet its lock adds nothing to the score
  and the line counter (the 40 points are the drop bonus of the key press), whereas the
  gravity lock of the same piece on the same row scores the line. The rotation key in
  \<open>wall_spin_state\<close> yields the flag \<^verbatim>\<open>'tspin'\<close>, and the gravity lock that follows clears
  one line and scores 100 points, the amount of a clear without T-spin.
\<close>

theorem lock_scoring_paths:
  "keydown (\<lambda>_. 0) hard_drop_clear_state K_SPACE =
     Inr (\<lambda>_. 0, hard_drop_clear_state\<lparr>hard_drop_anim := True, hard_drop_start_y := -2,
                                          hard_drop_target_y := 18, score := 40\<rparr>, None)
   \<and> map_sum id (\<lambda>(r, s). (score s, lines s, combo s, game_over s, drop 19 (grid s)))
        (hard_drop_step True (\<lambda>_. 0)
           (hard_drop_clear_state\<lparr>hard_drop_anim := True, hard_drop_start_y := -2,
                                   hard_drop_target_y := 18, score := 40\<rparr>))
       = Inr (40, 0, -1, False, [replicate 10 None])
   \<and> map_sum id (\<lambda>(r, s). (score s, lines s, combo s, game_over s, drop 19 (grid s)))
        (gravity_tick False (\<lambda>_. 0)
           (hard_drop_clear_state\<lparr>current := Some (Piece ''I'' 3 18 0), score := 40\<rparr>))
       = Inr (140, 1, 0, False, [replicate 10 None])
   \<and> keydown (\<lambda>_. 0) wall_spin_state K_x =
       Inr (\<lambda>_. 0, wall_spin_state\<lparr>current := Some (Piece ''T'' (-1) 17 3)\<rparr>, Some ''tspin'')
   \<and> map_sum id (\<lambda>(r, s). (score s, lines s))
        (gravity_tick False (\<lambda>_. 0) (wall_spin_state\<lparr>current := Some (Piece ''T'' (-1) 17 3)\<rparr>))
       = Inr (100, 1)"
proof -
  have dist: "hard_drop_distance hard_drop_clear_state = Inr 20"
    unfolding hard_drop_clear_state_def by code_simp
  have a: "keydown (\<lambda>_. 0) hard_drop_clear_state K_SPACE =
     Inr (\<lambda>_. 0, hard_drop_clear_state\<lparr>hard_drop_anim := True, hard_drop_start_y := -2,
                                          hard_drop_target_y := 18, score := 40\<rparr>, None)"
    using dist
    by (simp add: keydown_def space_key_def)
       (simp add: hard_drop_clear_state_def GameState_default_def)
  have b: "map_sum id (\<lambda>(r, s). (score s, lines s, combo s, game_over s, drop 19 (grid s)))
        (hard_drop_step True (\<lambda>_. 0)
           (hard_drop_clear_state\<lparr>hard_drop_anim := True, hard_drop_start_y := -2,
                                   hard_drop_target_y := 18, score := 40\<rparr>))
       = Inr (40, 0, -1, False, [replicate 10 None])"
    unfolding hard_drop_clear_state_def by code_simp
  have c: "map_sum id (\<lambda>(r, s). (score s, lines s, combo s, game_over s, drop 19 (grid s)))
        (gravity_tick False (\<lambda>_. 0)
           (hard_drop_clear_state\<lparr>current := Some (Piece ''I'' 3 18 0), score := 40\<rparr>))
       = Inr (140, 1, 0, False, [replicate 10 None])"
    unfolding hard_drop_clear_state_def by code_simp
  have turn: "try_rotate wall_spin_state (-1) =
      Inr (wall_spin_state\<lparr>current := Some (Piece ''T'' (-1) 17 3)\<rparr>, True, ''tspin'')"
    unfolding wall_spin_state_def by code_simp
  have d: "keydown (\<lambda>_. 0) wall_spin_state K_x =
       Inr (\<lambda>_. 0, wall_spin_state\<lparr>current := Some (Piece ''T'' (-1) 17 3)\<rparr>, Some ''tspin'')"
    using turn
    by (simp add: keydown_def rotate_key_def)
       (simp add: wall_spin_state_def GameState_default_def)
  have e: "map_sum id (\<lambda>(r, s). (score s, lines s))
        (gravity_tick False (\<lambda>_. 0) (wall_spin_state\<lparr>current := Some (Piece ''T'' (-1) 17 3)\<rparr>))
       = Inr (100, 1)"
    unfolding wall_spin_state_def by code_simp
  from a b c d e show ?thesis by blast
qed

end
